theory Spec2Isabelle
  imports Main "HOL-Library.Word" "HOL-Library.AList"
begin

section \<open>JavaScript values used by the session plugin\<close>

text \<open>
  A JavaScript string is a sequence of UTF-16 code units. String literals of the source are
  written \<open>js ''...''\<close>.
\<close>

type_synonym jschar = "16 word"
type_synonym jsstring = "jschar list"

definition js :: "string \<Rightarrow> jsstring" where
  "js s = map (\<lambda>c. of_nat (of_char c)) s"

text \<open>
  \<open>String.prototype.split\<close> with a one-character separator: the pieces between the
  separators, so an input without separator (the empty string included) gives one piece.
  The result is never empty; the second branch of the \<open>case\<close> is there for totality.
\<close>

fun split_on :: "'a \<Rightarrow> 'a list \<Rightarrow> 'a list list" where
  "split_on c [] = [[]]"
| "split_on c (x # xs) =
     (if x = c then [] # split_on c xs
      else (case split_on c xs of p # ps \<Rightarrow> (x # p) # ps | [] \<Rightarrow> [[x]]))"

text \<open>
  \<open>String.prototype.indexOf\<close> with a one-character needle: \<open>None\<close> stands for the
  result \<open>-1\<close>.
\<close>

fun indexOf :: "'a \<Rightarrow> 'a list \<Rightarrow> nat option" where
  "indexOf c [] = None"
| "indexOf c (x # xs) =
     (if x = c then Some 0 else map_option Suc (indexOf c xs))"

text \<open>
  \<open>String.prototype.trim\<close> removes the code units of the ECMAScript productions
  WhiteSpace and LineTerminator from both ends.
\<close>

definition is_js_whitespace :: "jschar \<Rightarrow> bool" where
  "is_js_whitespace c \<longleftrightarrow>
     c \<in> set [0x0009, 0x000A, 0x000B, 0x000C, 0x000D, 0x0020, 0x00A0, 0x1680,
               0x2000, 0x2001, 0x2002, 0x2003, 0x2004, 0x2005, 0x2006, 0x2007,
               0x2008, 0x2009, 0x200A, 0x2028, 0x2029, 0x202F, 0x205F, 0x3000,
               0xFEFF]"

definition trim :: "jsstring \<Rightarrow> jsstring" where
  "trim s = rev (dropWhile is_js_whitespace (rev (dropWhile is_js_whitespace s)))"

text \<open>
  A value is falsy in a condition when it is \<open>null\<close>/\<open>undefined\<close> or the empty
  string: \<open>Boolean(x)\<close> for an optional string \<open>x\<close>.
\<close>

definition truthy_string :: "jsstring option \<Rightarrow> bool" where
  "truthy_string x = (case x of None \<Rightarrow> False | Some s \<Rightarrow> s \<noteq> [])"

text \<open>
  The values found in the place of a session id. The source types an id as a string, but
  the id of the request is the result of a property lookup on a plain object
  (\<open>incomingCookies[cookie.name]\<close>), and such a lookup yields a string (an own
  property), \<open>undefined\<close>, or a member inherited from \<open>Object.prototype\<close>, which is
  an object (a function, or \<open>Object.prototype\<close> itself for \<open>__proto__\<close>).
  \<open>IdMember k\<close> is the inherited member of name \<open>k\<close>. An optional id is falsy when
  it is \<open>null\<close>/\<open>undefined\<close> or the empty string; an object is truthy.
\<close>

datatype idval = IdString jsstring | IdMember jsstring

definition truthy :: "idval option \<Rightarrow> bool" where
  "truthy x =
     (case x of
        None \<Rightarrow> False
      | Some (IdString s) \<Rightarrow> s \<noteq> []
      | Some (IdMember k) \<Rightarrow> True)"

subsection \<open>Plain objects as dictionaries\<close>

text \<open>
  An object created by the literal \<open>{}\<close> is modelled by the list of its own properties.
  The assignment \<open>obj[k] = v\<close> creates or overwrites the own property \<open>k\<close>, except for
  the key \<open>__proto__\<close>: that name is an accessor inherited from \<open>Object.prototype\<close>, so
  the assignment runs its setter and never creates an own property (for a string \<open>v\<close>
  the setter does nothing at all).
\<close>

type_synonym 'v jsobject = "(jsstring \<times> 'v) list"

definition obj_put :: "'v jsobject \<Rightarrow> jsstring \<Rightarrow> 'v \<Rightarrow> 'v jsobject" where
  "obj_put obj k v = (if k = js ''__proto__'' then obj else AList.update k v obj)"

definition own_property :: "'v jsobject \<Rightarrow> jsstring \<Rightarrow> 'v option" where
  "own_property obj k = map_of obj k"

section \<open>Cookie codec (src/cookie.ts)\<close>

subsection \<open>parseCookies\<close>

text \<open>
  \<open>decodeURIComponent\<close> is a built-in of the platform and a parameter of the model:
  \<open>None\<close> stands for the \<open>URIError\<close> it throws on malformed percent-encoding. The
  \<open>for\<close> loop over the pairs is \<open>parse_pairs\<close>, with the object \<open>result\<close> as
  accumulator.
\<close>

fun parse_pairs ::
  "(jsstring \<Rightarrow> jsstring option) \<Rightarrow> jsstring jsobject \<Rightarrow> jsstring list \<Rightarrow> jsstring jsobject"
where
  "parse_pairs decodeURIComponent result [] = result"
| "parse_pairs decodeURIComponent result (pair # pairs) =
     (case indexOf (0x3D :: jschar) pair of
        None \<Rightarrow> parse_pairs decodeURIComponent result pairs
      | Some index \<Rightarrow>
          (let rawName = trim (take index pair);
               rawValue = trim (drop (index + 1) pair)
           in if rawName = [] then parse_pairs decodeURIComponent result pairs
              else parse_pairs decodeURIComponent
                     (obj_put result rawName
                        (case decodeURIComponent rawValue of
                           Some decoded \<Rightarrow> decoded
                         | None \<Rightarrow> rawValue))
                     pairs))"

definition parseCookies ::
  "(jsstring \<Rightarrow> jsstring option) \<Rightarrow> jsstring option \<Rightarrow> jsstring jsobject"
where
  "parseCookies decodeURIComponent cookieHeader =
     (if \<not> truthy_string cookieHeader then []
      else parse_pairs decodeURIComponent [] (split_on (0x3B :: jschar) (the cookieHeader)))"

subsection \<open>parseCookies as the specification words it\<close>

text \<open>
  The specification: split the header on \<open>;\<close>, split each pair on its first \<open>=\<close>, trim
  name and value, URL-decode the value with the raw value as fallback, skip empty names;
  the last occurrence of a name wins. A pair without \<open>=\<close> has no name and no value and
  contributes nothing.
\<close>

definition cookie_of_pair ::
  "(jsstring \<Rightarrow> jsstring option) \<Rightarrow> jsstring \<Rightarrow> (jsstring \<times> jsstring) option"
where
  "cookie_of_pair decode pair =
     (if (0x3D :: jschar) \<notin> set pair then None
      else
        (let name = trim (takeWhile (\<lambda>c. c \<noteq> 0x3D) pair);
             val = trim (tl (dropWhile (\<lambda>c. c \<noteq> 0x3D) pair))
         in if name = [] then None
            else Some (name, case decode val of Some d \<Rightarrow> d | None \<Rightarrow> val)))"

definition parseCookies_spec ::
  "(jsstring \<Rightarrow> jsstring option) \<Rightarrow> jsstring option \<Rightarrow> (jsstring \<rightharpoonup> jsstring)"
where
  "parseCookies_spec decode header =
     (case header of
        None \<Rightarrow> Map.empty
      | Some h \<Rightarrow> map_of (rev (List.map_filter (cookie_of_pair decode) (split_on 0x3B h))))"

subsection \<open>Serialising cookies\<close>

text \<open>
  The built-ins of the platform the codec and the plugin call are parameters of the model.
  \<open>decodeURIComponent\<close> returns \<open>None\<close> where it throws; \<open>encodeURIComponent\<close>
  is taken to return (it throws only on a string with a lone surrogate);
  \<open>numberToString\<close> is the conversion of a template literal; \<open>toUTCString\<close>
  is \<open>new Date(t).toUTCString()\<close>; \<open>randomUUID\<close> gives the result of the \<open>n\<close>-th
  call of \<open>crypto.randomUUID\<close>; \<open>memberToString k\<close> is the string the member of
  \<open>Object.prototype\<close> of name \<open>k\<close> converts to.
\<close>

record js_builtins =
  decodeURIComponent :: "jsstring \<Rightarrow> jsstring option"
  encodeURIComponent :: "jsstring \<Rightarrow> jsstring"
  numberToString :: "int \<Rightarrow> jsstring"
  toUTCString :: "int \<Rightarrow> jsstring"
  randomUUID :: "nat \<Rightarrow> jsstring"
  memberToString :: "jsstring \<Rightarrow> jsstring"

text \<open>
  The conversion to a string that \<open>encodeURIComponent\<close> applies to its argument: a
  string is itself.
\<close>

definition id_string :: "js_builtins \<Rightarrow> idval \<Rightarrow> jsstring" where
  "id_string B i = (case i of IdString s \<Rightarrow> s | IdMember k \<Rightarrow> memberToString B k)"

datatype SameSite = Strict | Lax | NoneSite

text \<open>The cookie options as the caller gives them: every field is optional.\<close>

record SessionCookieOptions =
  opt_name :: "jsstring option"
  opt_path :: "jsstring option"
  opt_domain :: "jsstring option"
  opt_secure :: "bool option"
  opt_httpOnly :: "bool option"
  opt_sameSite :: "SameSite option"

text \<open>The result of \<open>normalizeCookieOptions\<close>: only the domain stays optional.\<close>

record cookie_config =
  c_name :: jsstring
  c_path :: jsstring
  c_domain :: "jsstring option"
  c_secure :: bool
  c_httpOnly :: bool
  c_sameSite :: SameSite

definition defaultCookie :: cookie_config where
  "defaultCookie =
     \<lparr>c_name = js ''sid'', c_path = js ''/'', c_domain = None, c_secure = False,
      c_httpOnly = True, c_sameSite = Lax\<rparr>"

fun formatSameSite :: "SameSite \<Rightarrow> jsstring" where
  "formatSameSite Strict = js ''Strict''"
| "formatSameSite NoneSite = js ''None''"
| "formatSameSite Lax = js ''Lax''"

definition normalizeCookieOptions :: "SessionCookieOptions option \<Rightarrow> cookie_config" where
  "normalizeCookieOptions cookie =
     \<lparr>c_name = (case Option.bind cookie opt_name of Some n \<Rightarrow> n | None \<Rightarrow> c_name defaultCookie),
      c_path = (case Option.bind cookie opt_path of Some p \<Rightarrow> p | None \<Rightarrow> c_path defaultCookie),
      c_domain = Option.bind cookie opt_domain,
      c_secure = (case Option.bind cookie opt_secure of Some b \<Rightarrow> b | None \<Rightarrow> c_secure defaultCookie),
      c_httpOnly =
        (case Option.bind cookie opt_httpOnly of Some b \<Rightarrow> b | None \<Rightarrow> c_httpOnly defaultCookie),
      c_sameSite =
        (case Option.bind cookie opt_sameSite of Some m \<Rightarrow> m | None \<Rightarrow> c_sameSite defaultCookie)\<rparr>"

text \<open>\<open>Array.prototype.join\<close>.\<close>

fun join :: "'a list \<Rightarrow> 'a list list \<Rightarrow> 'a list" where
  "join sep [] = []"
| "join sep [x] = x"
| "join sep (x # y # ys) = x @ sep @ join sep (y # ys)"

text \<open>
  \<open>withCookieAttributes\<close>; \<open>now\<close> is the value \<open>Date.now()\<close> returns inside it. Both
  operands of the division are whole numbers of milliseconds, so \<open>Math.floor\<close> of the
  quotient is the integer quotient rounded down.
\<close>

definition withCookieAttributes ::
  "js_builtins \<Rightarrow> int \<Rightarrow> jsstring \<Rightarrow> jsstring \<Rightarrow> int \<Rightarrow> cookie_config \<Rightarrow> jsstring"
where
  "withCookieAttributes B now name val expiresAt cookie =
     join (js ''; '')
       ([name @ js ''='' @ encodeURIComponent B val,
         js ''Path='' @ c_path cookie,
         js ''SameSite='' @ formatSameSite (c_sameSite cookie),
         js ''Max-Age='' @ numberToString B (max 0 ((expiresAt - now) div 1000)),
         js ''Expires='' @ toUTCString B expiresAt]
        @ (if c_httpOnly cookie then [js ''HttpOnly''] else [])
        @ (if c_secure cookie then [js ''Secure''] else [])
        @ (if truthy_string (c_domain cookie) then [js ''Domain='' @ the (c_domain cookie)] else []))"

definition serializeSessionCookie ::
  "js_builtins \<Rightarrow> int \<Rightarrow> jsstring \<Rightarrow> jsstring \<Rightarrow> int \<Rightarrow> cookie_config \<Rightarrow> jsstring"
where
  "serializeSessionCookie B now name val expiresAt cookie =
     withCookieAttributes B now name val expiresAt cookie"

definition serializeExpiredCookie ::
  "js_builtins \<Rightarrow> int \<Rightarrow> jsstring \<Rightarrow> cookie_config \<Rightarrow> jsstring"
where
  "serializeExpiredCookie B now name cookie = withCookieAttributes B now name [] 0 cookie"

section \<open>Types of the plugin (src/types.ts)\<close>

text \<open>
  A JSON value. Numbers are modelled by the integers (counters and timestamps); no
  property below depends on the payload.
\<close>

datatype json =
  JNull | JBool bool | JNum int | JStr jsstring | JArr "json list"
  | JObj "(jsstring \<times> json) list"

type_synonym session_data = "json jsobject"

record StoredSession =
  stored_data :: session_data
  stored_expiresAt :: int

text \<open>
  The persistence contract. An adapter is any implementation of the three operations over
  a store of its own (the type \<open>'a\<close>); its calls are assumed to complete, so storage
  I/O failures are not part of the model.
\<close>

record 'a SessionStoreAdapter =
  adapter_get :: "idval \<Rightarrow> 'a \<Rightarrow> StoredSession option \<times> 'a"
  adapter_set :: "idval \<Rightarrow> StoredSession \<Rightarrow> 'a \<Rightarrow> 'a"
  adapter_delete :: "idval \<Rightarrow> 'a \<Rightarrow> 'a"

text \<open>
  The constants the closure of \<open>betterSession\<close> holds once the defaults are applied.
  \<open>generateId n\<close> is the result of the \<open>n\<close>-th call of the id factory, \<open>initialData\<close>
  the object the factory of the initial payload returns. The TTL is a whole number of
  milliseconds, and times are added as integers: what JavaScript computes as long as the
  sums stay below \<open>2^53\<close>.
\<close>

record 'a plugin =
  ttl :: int
  rolling :: bool
  createOnRequest :: bool
  adapter :: "'a SessionStoreAdapter"
  cookie :: cookie_config
  generateId :: "nat \<Rightarrow> jsstring"
  initialData :: session_data
  builtins :: js_builtins

record 'a SessionPluginOptions =
  o_adapter :: "'a SessionStoreAdapter"
  o_ttl :: "int option"
  o_rolling :: "bool option"
  o_createOnRequest :: "bool option"
  o_cookie :: "SessionCookieOptions option"
  o_generateId :: "(nat \<Rightarrow> jsstring) option"
  o_initialData :: "session_data option"

datatype error = ConfigurationError | InvalidStateError | UpdaterError

definition DEFAULT_TTL :: int where
  "DEFAULT_TTL = 1000 * 60 * 60 * 24 * 7"

text \<open>The set-up part of \<open>betterSession\<close>: defaults, and the check of the TTL.\<close>

definition betterSession ::
  "js_builtins \<Rightarrow> 'a SessionPluginOptions \<Rightarrow> error + 'a plugin"
where
  "betterSession B options =
     (let ttl = (case o_ttl options of Some t \<Rightarrow> t | None \<Rightarrow> DEFAULT_TTL);
          rolling = (case o_rolling options of Some b \<Rightarrow> b | None \<Rightarrow> True);
          createOnRequest = (case o_createOnRequest options of Some b \<Rightarrow> b | None \<Rightarrow> True);
          cookie = normalizeCookieOptions (o_cookie options);
          generateId = (case o_generateId options of Some g \<Rightarrow> g | None \<Rightarrow> randomUUID B);
          initialData = (case o_initialData options of Some d \<Rightarrow> d | None \<Rightarrow> [])
      in if ttl \<le> 0 then Inl ConfigurationError
         else Inr \<lparr>ttl = ttl, rolling = rolling, createOnRequest = createOnRequest,
                   adapter = o_adapter options, cookie = cookie, generateId = generateId,
                   initialData = initialData, builtins = B\<rparr>)"

section \<open>The session plugin (src/plugin.ts)\<close>

subsection \<open>The world of one request\<close>

text \<open>
  What the request-scoped code reads and writes outside its own state: the adapter's
  store, the entry \<open>set-cookie\<close> of the response headers, the id factory (counted by its
  calls) and the clock (\<open>Date.now()\<close>, milliseconds since the epoch, a natural
  number: the clock is not set before the epoch). The field \<open>calls\<close> records every
  call made to the adapter, in order. Time passes where a handler lets it pass (the
  operation \<open>Elapse\<close> below); the code of the plugin itself takes no time, so the
  readings of the clock within one commit agree.
\<close>

datatype adapter_call =
  AdapterGet idval
  | AdapterSet idval StoredSession
  | AdapterDelete idval

datatype header_value = HUndefined | HString jsstring | HArray "jsstring list"

record 'a world =
  store :: 'a
  calls :: "adapter_call list"
  headers :: header_value
  ids_generated :: nat
  clock :: nat

definition appendSetCookie :: "header_value \<Rightarrow> jsstring \<Rightarrow> header_value" where
  "appendSetCookie existing cookieValue =
     (case existing of
        HUndefined \<Rightarrow> HString cookieValue
      | HString e \<Rightarrow> if e = [] then HString cookieValue else HArray [e, cookieValue]
      | HArray es \<Rightarrow> HArray (es @ [cookieValue]))"

definition emit_cookie :: "jsstring \<Rightarrow> 'a world \<Rightarrow> 'a world" where
  "emit_cookie cookieValue w = w\<lparr>headers := appendSetCookie (headers w) cookieValue\<rparr>"

definition call_get :: "'a plugin \<Rightarrow> idval \<Rightarrow> 'a world \<Rightarrow> StoredSession option \<times> 'a world" where
  "call_get P i w =
     (let (r, st) = adapter_get (adapter P) i (store w)
      in (r, w\<lparr>store := st, calls := calls w @ [AdapterGet i]\<rparr>))"

definition call_set :: "'a plugin \<Rightarrow> idval \<Rightarrow> StoredSession \<Rightarrow> 'a world \<Rightarrow> 'a world" where
  "call_set P i r w =
     w\<lparr>store := adapter_set (adapter P) i r (store w), calls := calls w @ [AdapterSet i r]\<rparr>"

definition call_delete :: "'a plugin \<Rightarrow> idval \<Rightarrow> 'a world \<Rightarrow> 'a world" where
  "call_delete P i w =
     w\<lparr>store := adapter_delete (adapter P) i (store w), calls := calls w @ [AdapterDelete i]\<rparr>"

definition call_generateId :: "'a plugin \<Rightarrow> 'a world \<Rightarrow> jsstring \<times> 'a world" where
  "call_generateId P w =
     (generateId P (ids_generated w), w\<lparr>ids_generated := ids_generated w + 1\<rparr>)"

subsection \<open>The state of a session\<close>

text \<open>The object \<open>state\<close> of the source; its field \<open>id\<close> is \<open>sid\<close> here.\<close>

record session_state =
  sid :: "idval option"
  data :: session_data
  expiresAt :: int
  isNew :: bool
  destroyed :: bool
  revision :: nat
  savedRevision :: nat
  committed :: bool

datatype PersistMode = Auto | Manual

definition expired_cookie :: "'a plugin \<Rightarrow> 'a world \<Rightarrow> jsstring" where
  "expired_cookie P w =
     serializeExpiredCookie (builtins P) (int (clock w)) (c_name (cookie P)) (cookie P)"

definition session_cookie :: "'a plugin \<Rightarrow> 'a world \<Rightarrow> idval \<Rightarrow> int \<Rightarrow> jsstring" where
  "session_cookie P w i e =
     serializeSessionCookie (builtins P) (int (clock w)) (c_name (cookie P))
       (id_string (builtins P) i) e (cookie P)"

text \<open>
  \<open>resolve\<close> up to the construction of \<open>state\<close>. The id of the request is the lookup
  \<open>incomingCookies[cookie.name]\<close>: the own property of the parsed header when there is
  one, and otherwise, when the configured cookie name is the name of a member of
  \<open>Object.prototype\<close>, that inherited member.
\<close>

definition object_prototype_members :: "jsstring list" where
  "object_prototype_members =
     map js [''constructor'', ''__defineGetter__'', ''__defineSetter__'', ''hasOwnProperty'',
             ''__lookupGetter__'', ''__lookupSetter__'', ''isPrototypeOf'',
             ''propertyIsEnumerable'', ''toString'', ''valueOf'', ''__proto__'',
             ''toLocaleString'']"

definition get_property :: "jsstring jsobject \<Rightarrow> jsstring \<Rightarrow> idval option" where
  "get_property obj k =
     (case own_property obj k of
        Some v \<Rightarrow> Some (IdString v)
      | None \<Rightarrow> if k \<in> set object_prototype_members then Some (IdMember k) else None)"

definition incoming_id :: "'a plugin \<Rightarrow> jsstring option \<Rightarrow> idval option" where
  "incoming_id P cookieHeader =
     get_property (parseCookies (decodeURIComponent (builtins P)) cookieHeader) (c_name (cookie P))"

definition resolve ::
  "'a plugin \<Rightarrow> jsstring option \<Rightarrow> 'a world \<Rightarrow> idval option \<times> session_state \<times> 'a world"
where
  "resolve P cookieHeader w =
     (let incomingId = incoming_id P cookieHeader;
          now = int (clock w);
          (stored, w1) = (if truthy incomingId then call_get P (the incomingId) w else (None, w));
          w2 = (if stored = None \<and> truthy incomingId then emit_cookie (expired_cookie P w1) w1
                else w1);
          (i, w3) = (case stored of
                       Some r \<Rightarrow> (incomingId, w2)
                     | None \<Rightarrow>
                         if createOnRequest P
                         then (let (g, w') = call_generateId P w2 in (Some (IdString g), w'))
                         else (None, w2))
      in (incomingId,
          \<lparr>sid = i,
           data = (case stored of Some r \<Rightarrow> stored_data r | None \<Rightarrow> initialData P),
           expiresAt = (case stored of Some r \<Rightarrow> stored_expiresAt r | None \<Rightarrow> now + ttl P),
           isNew = (stored = None),
           destroyed = False,
           revision = 0,
           savedRevision = 0,
           committed = False\<rparr>,
          w3))"

definition ensureId ::
  "'a plugin \<Rightarrow> session_state \<Rightarrow> 'a world \<Rightarrow> idval \<times> session_state \<times> 'a world"
where
  "ensureId P s w =
     (if \<not> truthy (sid s)
      then (let (g, w') = call_generateId P w
            in (IdString g, s\<lparr>sid := Some (IdString g), isNew := True\<rparr>, w'))
      else (the (sid s), s, w))"

definition markDirty :: "session_state \<Rightarrow> session_state" where
  "markDirty s = s\<lparr>revision := revision s + 1, committed := False\<rparr>"

text \<open>
  \<open>persist\<close>, the commit step. \<open>incomingId\<close> is the variable of that name the closure
  captured in \<open>resolve\<close>.
\<close>

definition persist ::
  "'a plugin \<Rightarrow> idval option \<Rightarrow> PersistMode \<Rightarrow> session_state \<Rightarrow> 'a world
     \<Rightarrow> session_state \<times> 'a world"
where
  "persist P incomingId mode s w =
     (if committed s then (s, w)
      else if destroyed s then
        (let w1 = (if truthy (sid s) then call_delete P (the (sid s)) w else w);
             w2 = (if truthy incomingId \<or> truthy (sid s)
                   then emit_cookie (expired_cookie P w1) w1 else w1)
         in (s\<lparr>savedRevision := revision s, committed := True\<rparr>, w2))
      else
        (let dirty = (savedRevision s \<noteq> revision s);
             shouldWrite =
               (if isNew s
                then createOnRequest P \<or> truthy (sid s) \<or> dirty \<or> mode = Manual
                else dirty \<or> (rolling P \<and> truthy incomingId))
         in if \<not> shouldWrite then (s\<lparr>committed := True\<rparr>, w)
            else
              (let (i, s1, w1) = ensureId P s w;
                   s2 = s1\<lparr>expiresAt := int (clock w1) + ttl P\<rparr>;
                   toStore = \<lparr>stored_data = data s2, stored_expiresAt = expiresAt s2\<rparr>;
                   w2 = call_set P i toStore w1;
                   w3 = emit_cookie (session_cookie P w2 i (expiresAt s2)) w2
               in (s2\<lparr>isNew := False, savedRevision := revision s2, committed := True\<rparr>,
                   w3))))"

subsection \<open>The session handle\<close>

text \<open>
  The methods of the object \<open>session\<close>. The mutators change the own properties of
  \<open>state.data\<close>; the updater of \<open>update\<close> is a function of the data that returns
  \<open>None\<close> where it throws.
\<close>

definition session_set :: "jsstring \<Rightarrow> json \<Rightarrow> session_state \<Rightarrow> session_state" where
  "session_set key v s = markDirty (s\<lparr>data := obj_put (data s) key v\<rparr>)"

definition session_assign :: "session_data \<Rightarrow> session_state \<Rightarrow> session_state" where
  "session_assign patch s =
     markDirty (s\<lparr>data := fold (\<lambda>(k, v) d. obj_put d k v) patch (data s)\<rparr>)"

definition session_replace :: "session_data \<Rightarrow> session_state \<Rightarrow> session_state" where
  "session_replace next_data s = markDirty (s\<lparr>data := next_data\<rparr>)"

definition session_update ::
  "(session_data \<Rightarrow> session_data option) \<Rightarrow> session_state \<Rightarrow> (error + unit) \<times> session_state"
where
  "session_update updater s =
     (case updater (data s) of
        None \<Rightarrow> (Inl UpdaterError, s)
      | Some d \<Rightarrow> (Inr (), markDirty (s\<lparr>data := d\<rparr>)))"

definition session_delete :: "jsstring \<Rightarrow> session_state \<Rightarrow> session_state" where
  "session_delete key s = markDirty (s\<lparr>data := AList.delete key (data s)\<rparr>)"

definition session_regenerate ::
  "'a plugin \<Rightarrow> session_state \<Rightarrow> 'a world \<Rightarrow> (error + jsstring) \<times> session_state \<times> 'a world"
where
  "session_regenerate P s w =
     (if destroyed s then (Inl InvalidStateError, s, w)
      else
        (let previousId = sid s;
             (nextId, w1) = call_generateId P w;
             s1 = markDirty (s\<lparr>sid := Some (IdString nextId), isNew := True\<rparr>);
             w2 = (if previousId \<noteq> Some (IdString nextId)
                   then (if truthy previousId then call_delete P (the previousId) w1 else w1)
                   else w1)
         in (Inr nextId, s1, w2)))"

definition session_destroy ::
  "'a plugin \<Rightarrow> idval option \<Rightarrow> session_state \<Rightarrow> 'a world \<Rightarrow> session_state \<times> 'a world"
where
  "session_destroy P incomingId s w =
     (if destroyed s then (s, w)
      else persist P incomingId Manual (markDirty (s\<lparr>destroyed := True\<rparr>)) w)"

definition session_save ::
  "'a plugin \<Rightarrow> idval option \<Rightarrow> session_state \<Rightarrow> 'a world \<Rightarrow> session_state \<times> 'a world"
where
  "session_save P incomingId s w = persist P incomingId Manual s w"

definition onAfterHandle ::
  "'a plugin \<Rightarrow> idval option \<Rightarrow> session_state \<Rightarrow> 'a world \<Rightarrow> session_state \<times> 'a world"
where
  "onAfterHandle P incomingId s w = persist P incomingId Auto s w"

subsection \<open>Handlers\<close>

text \<open>
  A handler is the sequence of the operations it issues on the handle; \<open>Elapse\<close> lets
  time pass between two of them. An operation that throws (\<open>regenerate\<close> on a destroyed
  session, an updater that throws) leaves the state as it is at the throw. In \<open>run\<close> the
  sequence goes on as in a handler that catches the error: every handler that stops at
  the error is a prefix of such a sequence. In \<open>run_handler\<close> the error is not caught:
  the handler ends at the first operation that throws, with its error.
\<close>

datatype handler_op =
  OpSet jsstring json
  | OpAssign session_data
  | OpReplace session_data
  | OpUpdate "session_data \<Rightarrow> session_data option"
  | OpDelete jsstring
  | OpRegenerate
  | OpDestroy
  | OpSave
  | Elapse nat

fun step ::
  "'a plugin \<Rightarrow> idval option \<Rightarrow> handler_op \<Rightarrow> session_state \<times> 'a world
     \<Rightarrow> session_state \<times> 'a world"
where
  "step P inc (OpSet k v) (s, w) = (session_set k v s, w)"
| "step P inc (OpAssign patch) (s, w) = (session_assign patch s, w)"
| "step P inc (OpReplace d) (s, w) = (session_replace d s, w)"
| "step P inc (OpUpdate f) (s, w) = (snd (session_update f s), w)"
| "step P inc (OpDelete k) (s, w) = (session_delete k s, w)"
| "step P inc OpRegenerate (s, w) = snd (session_regenerate P s w)"
| "step P inc OpDestroy (s, w) = session_destroy P inc s w"
| "step P inc OpSave (s, w) = session_save P inc s w"
| "step P inc (Elapse n) (s, w) = (s, w\<lparr>clock := clock w + n\<rparr>)"


definition run ::
  "'a plugin \<Rightarrow> idval option \<Rightarrow> handler_op list \<Rightarrow> session_state \<times> 'a world
     \<Rightarrow> session_state \<times> 'a world"
where
  "run P inc ops sw = fold (step P inc) ops sw"

text \<open>The error an operation throws in a state, if it throws.\<close>

definition throws :: "'a plugin \<Rightarrow> handler_op \<Rightarrow> session_state \<times> 'a world \<Rightarrow> error option" where
  "throws P op sw =
     (case op of
        OpUpdate f \<Rightarrow>
          (case fst (session_update f (fst sw)) of Inl e \<Rightarrow> Some e | Inr u \<Rightarrow> None)
      | OpRegenerate \<Rightarrow>
          (case fst (session_regenerate P (fst sw) (snd sw)) of Inl e \<Rightarrow> Some e | Inr g \<Rightarrow> None)
      | _ \<Rightarrow> None)"

fun run_handler ::
  "'a plugin \<Rightarrow> idval option \<Rightarrow> handler_op list \<Rightarrow> session_state \<times> 'a world
     \<Rightarrow> error option \<times> session_state \<times> 'a world"
where
  "run_handler P inc [] sw = (None, sw)"
| "run_handler P inc (op # ops) sw =
     (case throws P op sw of
        Some e \<Rightarrow> (Some e, step P inc op sw)
      | None \<Rightarrow> run_handler P inc ops (step P inc op sw))"

text \<open>
  The operations that only let time pass, the time an operation lets pass, and the
  operations that can throw.
\<close>

fun passes_time :: "handler_op \<Rightarrow> bool" where
  "passes_time (Elapse n) = True"
| "passes_time op = False"

fun elapsed :: "handler_op \<Rightarrow> nat" where
  "elapsed (Elapse n) = n"
| "elapsed op = 0"


text \<open>
  One request: \<open>resolve\<close>, the handler, and the hook \<open>onAfterHandle\<close>. The hook is the
  only place of the end-of-request commit, and the framework runs it when the handler has
  returned: a request whose handler throws ends without it. The first component of the
  result is the error of the handler, if it threw.
\<close>

definition handle_request ::
  "'a plugin \<Rightarrow> jsstring option \<Rightarrow> handler_op list \<Rightarrow> 'a world
     \<Rightarrow> error option \<times> session_state \<times> 'a world"
where
  "handle_request P cookieHeader ops w =
     (let (incomingId, s, w1) = resolve P cookieHeader w;
          (thrown, s2, w2) = run_handler P incomingId ops (s, w1)
      in case thrown of
           Some e \<Rightarrow> (Some e, s2, w2)
         | None \<Rightarrow> (None, onAfterHandle P incomingId s2 w2))"

text \<open>The Set-Cookie values a header entry carries.\<close>

definition cookies_of :: "header_value \<Rightarrow> jsstring list" where
  "cookies_of h =
     (case h of
        HUndefined \<Rightarrow> []
      | HString e \<Rightarrow> if e = [] then [] else [e]
      | HArray es \<Rightarrow> es)"

text \<open>
  The clearing cookie of a plugin: \<open>serializeExpiredCookie\<close> as it prints when the clock
  is at the epoch. (It prints the same at every later time, see \<open>expired_cookie_clearing\<close>.)
\<close>

definition clearing_cookie :: "'a plugin \<Rightarrow> jsstring" where
  "clearing_cookie P = serializeExpiredCookie (builtins P) 0 (c_name (cookie P)) (cookie P)"

text \<open>
  From the world \<open>w\<close> to the world \<open>w'\<close> the adapter was only asked to delete the id
  \<open>i\<close>, only clearing cookies were added to the response, and no id was generated.
\<close>

definition only_clears :: "'a plugin \<Rightarrow> idval option \<Rightarrow> 'a world \<Rightarrow> 'a world \<Rightarrow> bool" where
  "only_clears P i w w' \<longleftrightarrow>
     take (length (calls w)) (calls w') = calls w \<and>
     list_all (\<lambda>c. c = AdapterDelete (the i)) (drop (length (calls w)) (calls w')) \<and>
     take (length (cookies_of (headers w))) (cookies_of (headers w')) = cookies_of (headers w) \<and>
     list_all (\<lambda>c. c = clearing_cookie P)
       (drop (length (cookies_of (headers w))) (cookies_of (headers w'))) \<and>
     ids_generated w' = ids_generated w"

section \<open>The in-memory adapter (createMemorySessionAdapter)\<close>

subsection \<open>On immutable values\<close>

text \<open>
  The adapter as an instance of the persistence contract, with records as values (a clone
  of a value is the value). Its store is the \<open>Map\<close> of the source and the time its
  \<open>now\<close> option returns; a \<open>Map\<close> takes every value as a key. The witnesses below
  run the plugin with it.
\<close>

record memory_store =
  entries :: "(idval \<times> StoredSession) list"
  time :: int

definition memoryAdapter :: "memory_store SessionStoreAdapter" where
  "memoryAdapter =
     \<lparr>adapter_get = (\<lambda>i m.
        (case map_of (entries m) i of
           None \<Rightarrow> (None, m)
         | Some existing \<Rightarrow>
             if stored_expiresAt existing \<le> time m
             then (None, m\<lparr>entries := AList.delete i (entries m)\<rparr>)
             else (Some existing, m))),
      adapter_set = (\<lambda>i session m. m\<lparr>entries := AList.update i session (entries m)\<rparr>),
      adapter_delete = (\<lambda>i m. m\<lparr>entries := AList.delete i (entries m)\<rparr>)\<rparr>"

subsection \<open>On a heap of objects\<close>

text \<open>
  Whether the adapter shares objects with its caller is a question of aliasing, so here
  objects live in a heap: a list of objects, an address being an index, allocation an
  append. A JavaScript value is a primitive or a reference.
\<close>

datatype jsval = VNull | VBool bool | VNum int | VStr jsstring | VRef nat

datatype heap_object = HObject "(jsstring \<times> jsval) list" | HArrayObj "jsval list"

type_synonym heap = "heap_object list"

fun traverse :: "('a \<Rightarrow> 'b option) \<Rightarrow> 'a list \<Rightarrow> 'b list option" where
  "traverse f [] = Some []"
| "traverse f (x # xs) =
     (case f x of
        None \<Rightarrow> None
      | Some y \<Rightarrow> (case traverse f xs of None \<Rightarrow> None | Some ys \<Rightarrow> Some (y # ys)))"

text \<open>
  \<open>json_in A n h v\<close> is the JSON value that \<open>v\<close> unfolds to in the heap \<open>h\<close>, reading
  objects at addresses in \<open>A\<close> only and following at most \<open>n\<close> references in a row;
  \<open>None\<close> when an address is outside \<open>A\<close> or the heap, or the chain is longer.
\<close>

primrec json_in :: "(nat \<Rightarrow> bool) \<Rightarrow> nat \<Rightarrow> heap \<Rightarrow> jsval \<Rightarrow> json option" where
  "json_in A 0 = (\<lambda>h v.
     (case v of
        VNull \<Rightarrow> Some JNull
      | VBool b \<Rightarrow> Some (JBool b)
      | VNum k \<Rightarrow> Some (JNum k)
      | VStr s \<Rightarrow> Some (JStr s)
      | VRef a \<Rightarrow> None))"
| "json_in A (Suc n) = (\<lambda>h v.
     (case v of
        VNull \<Rightarrow> Some JNull
      | VBool b \<Rightarrow> Some (JBool b)
      | VNum k \<Rightarrow> Some (JNum k)
      | VStr s \<Rightarrow> Some (JStr s)
      | VRef a \<Rightarrow>
          if a < length h \<and> A a then
            (case h ! a of
               HObject props \<Rightarrow>
                 map_option (\<lambda>jl. JObj (zip (map fst props) jl))
                   (traverse (json_in A n h) (map snd props))
             | HArrayObj vs \<Rightarrow> map_option JArr (traverse (json_in A n h) vs))
          else None))"

text \<open>
  A chain of references without a cycle visits every object of the heap at most once, so
  the length of the heap is fuel enough: \<open>json_of h v\<close> is defined exactly when \<open>v\<close> is
  a JSON value in \<open>h\<close> (no dangling reference, no cycle).
\<close>

definition json_of :: "heap \<Rightarrow> jsval \<Rightarrow> json option" where
  "json_of h v = json_in (\<lambda>a. True) (length h) h v"

text \<open>
  \<open>structuredClone\<close> (and the fallback through \<open>JSON.stringify\<close>) on a JSON value: every
  object reached is copied into a newly allocated object, the copies of its members
  first. \<open>clone_value n\<close> follows at most \<open>n\<close> references in a row and returns the new
  heap and the copy.
\<close>

fun clone_all ::
  "(heap \<Rightarrow> jsval \<Rightarrow> (heap \<times> jsval) option) \<Rightarrow> heap \<Rightarrow> jsval list \<Rightarrow> (heap \<times> jsval list) option"
where
  "clone_all f h [] = Some (h, [])"
| "clone_all f h (v # vs) =
     (case f h v of
        None \<Rightarrow> None
      | Some (h1, v') \<Rightarrow>
          (case clone_all f h1 vs of
             None \<Rightarrow> None
           | Some (h2, vs') \<Rightarrow> Some (h2, v' # vs')))"

primrec clone_value :: "nat \<Rightarrow> heap \<Rightarrow> jsval \<Rightarrow> (heap \<times> jsval) option" where
  "clone_value 0 = (\<lambda>h v. (case v of VRef a \<Rightarrow> None | _ \<Rightarrow> Some (h, v)))"
| "clone_value (Suc n) = (\<lambda>h v.
     (case v of
        VRef a \<Rightarrow>
          if a < length h then
            (case h ! a of
               HObject props \<Rightarrow>
                 (case clone_all (clone_value n) h (map snd props) of
                    None \<Rightarrow> None
                  | Some (h', vs') \<Rightarrow>
                      Some (h' @ [HObject (zip (map fst props) vs')], VRef (length h')))
             | HArrayObj vs \<Rightarrow>
                 (case clone_all (clone_value n) h vs of
                    None \<Rightarrow> None
                  | Some (h', vs') \<Rightarrow> Some (h' @ [HArrayObj vs'], VRef (length h'))))
          else None
      | _ \<Rightarrow> Some (h, v)))"

type_synonym clone_strategy = "heap \<Rightarrow> jsval \<Rightarrow> (heap \<times> jsval) option"

definition defaultClone :: clone_strategy where
  "defaultClone h v = clone_value (length h) h v"

text \<open>
  The options of the adapter. The time source \<open>now\<close> is not a field: each operation takes
  the time \<open>now()\<close> returns at that call.
\<close>

record MemorySessionAdapterOptions =
  opt_clone :: "clone_strategy option"

definition clone_of :: "MemorySessionAdapterOptions \<Rightarrow> clone_strategy" where
  "clone_of options = (case opt_clone options of Some c \<Rightarrow> c | None \<Rightarrow> defaultClone)"

text \<open>The \<open>Map\<close> of the adapter holds references to its records.\<close>

type_synonym session_map = "(jsstring \<times> jsval) list"

text \<open>
  \<open>existing.expiresAt\<close>, for a record object with a numeric \<open>expiresAt\<close> as the type
  \<open>StoredSession\<close> has it; \<open>None\<close> otherwise.
\<close>

definition record_expiresAt :: "heap \<Rightarrow> jsval \<Rightarrow> int option" where
  "record_expiresAt h v =
     (case v of
        VRef a \<Rightarrow>
          if a < length h then
            (case h ! a of
               HObject props \<Rightarrow>
                 (case map_of props (js ''expiresAt'') of Some (VNum e) \<Rightarrow> Some e | _ \<Rightarrow> None)
             | HArrayObj vs \<Rightarrow> None)
          else None
      | _ \<Rightarrow> None)"

text \<open>
  The three operations. The outer \<open>None\<close> of a result says that the call is outside the
  model (a stored value that is not a record, or a clone that does not return); the first
  component of the result of \<open>memory_get\<close> is the returned record, \<open>None\<close> for \<open>null\<close>.
\<close>

definition memory_get ::
  "MemorySessionAdapterOptions \<Rightarrow> int \<Rightarrow> jsstring \<Rightarrow> heap \<times> session_map
     \<Rightarrow> (jsval option \<times> heap \<times> session_map) option"
where
  "memory_get options now i hs =
     (case hs of (h, sessions) \<Rightarrow>
        (case map_of sessions i of
           None \<Rightarrow> Some (None, h, sessions)
         | Some existing \<Rightarrow>
             (case record_expiresAt h existing of
                None \<Rightarrow> None
              | Some e \<Rightarrow>
                  if e \<le> now then Some (None, h, AList.delete i sessions)
                  else (case clone_of options h existing of
                          None \<Rightarrow> None
                        | Some (h', c) \<Rightarrow> Some (Some c, h', sessions)))))"

definition memory_set ::
  "MemorySessionAdapterOptions \<Rightarrow> jsstring \<Rightarrow> jsval \<Rightarrow> heap \<times> session_map
     \<Rightarrow> (heap \<times> session_map) option"
where
  "memory_set options i session hs =
     (case hs of (h, sessions) \<Rightarrow>
        (case clone_of options h session of
           None \<Rightarrow> None
         | Some (h', c) \<Rightarrow> Some (h', AList.update i c sessions)))"

definition memory_delete :: "jsstring \<Rightarrow> heap \<times> session_map \<Rightarrow> heap \<times> session_map" where
  "memory_delete i hs = (case hs of (h, sessions) \<Rightarrow> (h, AList.delete i sessions))"

text \<open>
  \<open>untouched lo hi h h'\<close>: the objects at the addresses from \<open>lo\<close> up to \<open>hi\<close> are in
  \<open>h'\<close> what they are in \<open>h\<close>. Everything else may differ: objects at other addresses
  may have been mutated, and objects may have been allocated.
\<close>

definition untouched :: "nat \<Rightarrow> nat \<Rightarrow> heap \<Rightarrow> heap \<Rightarrow> bool" where
  "untouched lo hi h h' \<longleftrightarrow>
     hi \<le> length h \<and> hi \<le> length h' \<and> list_all (\<lambda>a. h' ! a = h ! a) [lo..<hi]"

text \<open>
  What the option \<open>clone\<close> is documented to be, a deep clone strategy: on a JSON value it
  returns a copy that unfolds to the same JSON value, made of newly allocated objects
  only, and leaves the objects of the heap as they are.
\<close>

definition deep_clone_strategy :: "clone_strategy \<Rightarrow> bool" where
  "deep_clone_strategy c \<longleftrightarrow>
     (\<forall>h v j. json_of h v = Some j \<longrightarrow>
        (\<exists>ext v'. c h v = Some (h @ ext, v') \<and>
           json_in (\<lambda>a. length h \<le> a) (length (h @ ext)) (h @ ext) v' = Some j))"

definition json_expiresAt :: "json \<Rightarrow> int option" where
  "json_expiresAt j =
     (case j of
        JObj ps \<Rightarrow> (case map_of ps (js ''expiresAt'') of Some (JNum e) \<Rightarrow> Some e | _ \<Rightarrow> None)
      | _ \<Rightarrow> None)"

section \<open>Inputs for the witnesses\<close>

text \<open>
  The configuration of the repository's plugin tests: the in-memory adapter, a TTL of
  60000 ms, the cookie \<open>sid\<close>, and the initial payload \<open>{visits: 0, userId: null}\<close>.
  The built-ins are instances good for the strings the witnesses use: identity coding
  (what the platform does on unreserved characters) and decimal printing of the numbers
  from 0 on (a date prints as \<open>t\<close> and its milliseconds).
\<close>

function decimal :: "int \<Rightarrow> jsstring" where
  "decimal n =
     (if n < 10 then [of_int (48 + n)] else decimal (n div 10) @ [of_int (48 + n mod 10)])"
  by pat_completeness auto
termination
  by (relation "measure nat") auto

definition test_builtins :: js_builtins where
  "test_builtins =
     \<lparr>decodeURIComponent = Some,
      encodeURIComponent = (\<lambda>s. s),
      numberToString = (\<lambda>n. if n < 0 then js ''-'' @ decimal (- n) else decimal n),
      toUTCString = (\<lambda>t. js ''t'' @ decimal t),
      randomUUID = (\<lambda>n. js ''uuid-'' @ decimal (int n)),
      memberToString = (\<lambda>k. js ''function '' @ k @ js ''() { [native code] }'')\<rparr>"

definition test_plugin :: "memory_store plugin" where
  "test_plugin =
     \<lparr>ttl = 60000, rolling = True, createOnRequest = True, adapter = memoryAdapter,
      cookie = defaultCookie, generateId = (\<lambda>n. js ''id-'' @ decimal (int n)),
      initialData = [(js ''visits'', JNum 0), (js ''userId'', JNull)],
      builtins = test_builtins\<rparr>"

text \<open>
  The same with \<open>createOnRequest\<close> disabled; with \<open>rolling\<close> disabled as well; and
  with a cookie named \<open>toString\<close>, the name of a member of \<open>Object.prototype\<close>.
\<close>

definition lazy_plugin :: "memory_store plugin" where
  "lazy_plugin = test_plugin\<lparr>createOnRequest := False\<rparr>"

definition static_plugin :: "memory_store plugin" where
  "static_plugin = lazy_plugin\<lparr>rolling := False\<rparr>"

definition member_plugin :: "memory_store plugin" where
  "member_plugin = lazy_plugin\<lparr>cookie := defaultCookie\<lparr>c_name := js ''toString''\<rparr>\<rparr>"

text \<open>A world at time 1000 whose store holds one live record, under the id \<open>abc\<close>.\<close>

definition test_world :: "memory_store world" where
  "test_world =
     \<lparr>store = \<lparr>entries = [(IdString (js ''abc''),
                 \<lparr>stored_data = [(js ''visits'', JNum 1), (js ''userId'', JNull)],
                  stored_expiresAt = 50000\<rparr>)],
               time = 1000\<rparr>,
      calls = [], headers = HUndefined, ids_generated = 0, clock = 1000\<rparr>"

text \<open>The session of a request without cookie, eager and lazy.\<close>

definition fresh_state :: session_state where
  "fresh_state = fst (snd (resolve test_plugin None test_world))"

definition fresh_world :: "memory_store world" where
  "fresh_world = snd (snd (resolve test_plugin None test_world))"

definition lazy_state :: session_state where
  "lazy_state = fst (snd (resolve lazy_plugin None test_world))"

text \<open>
  A heap with the record \<open>{data: {visits: 1}, expiresAt: 100}\<close> at address 1, and the
  JSON value it unfolds to.
\<close>

definition test_heap :: heap where
  "test_heap =
     [HObject [(js ''visits'', VNum 1)],
      HObject [(js ''data'', VRef 0), (js ''expiresAt'', VNum 100)]]"

definition test_record :: json where
  "test_record = JObj [(js ''data'', JObj [(js ''visits'', JNum 1)]), (js ''expiresAt'', JNum 100)]"

text \<open>
  The heap after the record at address 1 was stored, and that heap after the caller has set
  \<open>visits\<close> to 99 in the data object of its own record.
\<close>

definition stored_heap :: heap where
  "stored_heap =
     test_heap @ [HObject [(js ''visits'', VNum 1)],
                  HObject [(js ''data'', VRef 2), (js ''expiresAt'', VNum 100)]]"

definition mutated_heap :: heap where
  "mutated_heap = stored_heap[0 := HObject [(js ''visits'', VNum 99)]]"

section \<open>Properties of the cookie codec\<close>

lemma indexOf_None_iff: "indexOf c s = None \<longleftrightarrow> c \<notin> set s"
  by (induction s) auto

lemma indexOf_Some_split:
  "indexOf c s = Some i \<Longrightarrow>
     take i s = takeWhile (\<lambda>x. x \<noteq> c) s \<and> drop (i + 1) s = tl (dropWhile (\<lambda>x. x \<noteq> c) s)"
  by (induction s arbitrary: i) (auto split: if_splits)

lemma parse_pairs_refines:
  assumes "k \<noteq> js ''__proto__''"
  shows "map_of (parse_pairs dec acc ps) k =
           (map_of acc ++ map_of (rev (List.map_filter (cookie_of_pair dec) ps))) k"
  using assms
proof (induction ps arbitrary: acc)
  case Nil
  then show ?case by simp
next
  case (Cons p ps)
  show ?case
  proof (cases "indexOf (0x3D :: jschar) p")
    case None
    then have "cookie_of_pair dec p = None"
      by (simp add: cookie_of_pair_def indexOf_None_iff)
    with None Cons show ?thesis
      by simp
  next
    case (Some i)
    then have mem: "(0x3D :: jschar) \<in> set p"
      using indexOf_None_iff [of "0x3D :: jschar" p] by auto
    note sp = indexOf_Some_split [OF Some]
    show ?thesis
    proof (cases "trim (take i p) = []")
      case True
      then have "cookie_of_pair dec p = None"
        using sp mem by (simp add: cookie_of_pair_def Let_def)
      with Some True Cons show ?thesis
        by (simp add: Let_def)
    next
      case False
      define v where "v = (case dec (trim (drop (i + 1) p)) of Some d \<Rightarrow> d
                           | None \<Rightarrow> trim (drop (i + 1) p))"
      have rv: "trim (drop (i + 1) p) = trim (tl (dropWhile (\<lambda>c. c \<noteq> 0x3D) p))"
        using sp by simp
      have c: "cookie_of_pair dec p = Some (trim (take i p), v)"
        unfolding v_def rv using sp mem False by (simp add: cookie_of_pair_def Let_def)
      have step: "parse_pairs dec acc (p # ps) =
                    parse_pairs dec (obj_put acc (trim (take i p)) v) ps"
        using Some False by (simp add: Let_def v_def cong: option.case_cong)
      show ?thesis
      proof (cases "trim (take i p) = js ''__proto__''")
        case True
        with Cons.prems have ne: "k \<noteq> trim (take i p)" by simp
        have "obj_put acc (trim (take i p)) v = acc"
          using True by (simp add: obj_put_def)
        with step Cons c ne show ?thesis
          by (simp add: map_add_def split: option.splits)
      next
        case np: False
        have "map_of (obj_put acc (trim (take i p)) v) = (map_of acc)(trim (take i p) \<mapsto> v)"
          using np by (simp add: obj_put_def update_conv')
        with step Cons c show ?thesis
          by (simp add: map_add_def split: option.splits)
      qed
    qed
  qed
qed

lemma parse_pairs_proto:
  "map_of (parse_pairs dec acc ps) (js ''__proto__'') = map_of acc (js ''__proto__'')"
proof (induction ps arbitrary: acc)
  case Nil
  then show ?case by simp
next
  case (Cons p ps)
  have "map_of (obj_put acc n v) (js ''__proto__'') = map_of acc (js ''__proto__'')" for n v
    by (simp add: obj_put_def update_conv')
  with Cons show ?case
    by (simp add: Let_def split: option.splits)
qed


text \<open>
  Apart from the name \<open>__proto__\<close>, the own properties of the object \<open>parseCookies\<close>
  returns are the mapping the specification describes, for every header (the missing
  header and the empty one included) and every behaviour of \<open>decodeURIComponent\<close>.
\<close>

lemma parseCookies_refines_spec:
  assumes "k \<noteq> js ''__proto__''"
  shows "own_property (parseCookies dec header) k = parseCookies_spec dec header k"
proof (cases header)
  case None
  then show ?thesis
    by (simp add: parseCookies_def parseCookies_spec_def own_property_def truthy_string_def)
next
  case (Some h)
  show ?thesis
  proof (cases "h = []")
    case True
    with Some show ?thesis
      by (simp add: parseCookies_def parseCookies_spec_def own_property_def truthy_string_def
          cookie_of_pair_def)
  next
    case False
    with Some parse_pairs_refines [OF assms, of dec "[]" "split_on 0x3B h"] show ?thesis
      by (simp add: parseCookies_def parseCookies_spec_def own_property_def truthy_string_def)
  qed
qed

lemma parseCookies_never_proto:
  "own_property (parseCookies dec header) (js ''__proto__'') = None"
  by (simp add: parseCookies_def own_property_def parse_pairs_proto)

text \<open>
  Claim C8 (parseCookies returns the mapping built from the pairs of the header, the last
  occurrence of a name winning). The code misses it on a cookie named \<open>__proto__\<close>: for
  the header \<open>__proto__=abc\<close> the assignment \<open>result[rawName] = ...\<close> creates no
  property and the object returned is empty, where the mapping of the specification sends
  \<open>__proto__\<close> to \<open>abc\<close>.
\<close>

theorem parseCookies_drops_proto_cookie:
  "parseCookies (decodeURIComponent test_builtins) (Some (js ''__proto__=abc'')) = [] \<and>
   parseCookies_spec (decodeURIComponent test_builtins) (Some (js ''__proto__=abc''))
     (js ''__proto__'') = Some (js ''abc'')"
  by code_simp

section \<open>Properties of the commit step and the session handle\<close>

lemma persist_committed: "committed s \<Longrightarrow> persist P inc mode s w = (s, w)"
  by (simp add: persist_def)

lemma persist_commits: "committed (fst (persist P inc mode s w))"
  by (simp add: persist_def Let_def ensureId_def split: prod.splits)

lemma persist_destroyed: "destroyed (fst (persist P inc mode s w)) = destroyed s"
  by (simp add: persist_def Let_def ensureId_def split: prod.splits)

lemma join_nonempty: "x \<noteq> [] \<Longrightarrow> join sep (x # xs) \<noteq> []"
  by (cases xs) auto

lemma withCookieAttributes_nonempty: "withCookieAttributes B now name v e c \<noteq> []"
  unfolding withCookieAttributes_def
  by (simp add: join_nonempty js_def)

lemma cookies_of_append:
  "c \<noteq> [] \<Longrightarrow> cookies_of (appendSetCookie h c) = cookies_of h @ [c]"
  by (cases h) (auto simp: cookies_of_def appendSetCookie_def)

text \<open>
  The clock never reads a time before the epoch, so the clearing cookie prints the same at
  every time: \<open>Max-Age\<close> is 0.
\<close>

lemma expired_cookie_clearing: "expired_cookie P w = clearing_cookie P"
proof -
  have "max 0 ((0 - int (clock w)) div 1000) = (0::int)"
    by (simp add: max_def) 
  then show ?thesis
    by (simp add: expired_cookie_def clearing_cookie_def serializeExpiredCookie_def
        withCookieAttributes_def)
qed

lemma clearing_cookie_nonempty: "clearing_cookie P \<noteq> []"
  by (simp add: clearing_cookie_def serializeExpiredCookie_def withCookieAttributes_nonempty)

lemma only_clears_refl: "only_clears P i w w"
  by (simp add: only_clears_def)

lemma grown_trans:
  assumes "take (length xs) ys = xs" and "list_all Q (drop (length xs) ys)"
    and "take (length ys) zs = ys" and "list_all Q (drop (length ys) zs)"
  shows "take (length xs) zs = xs \<and> list_all Q (drop (length xs) zs)"
proof -
  from assms(1) obtain a where ys: "ys = xs @ a"
    by (metis append_take_drop_id)
  from assms(3) obtain b where zs: "zs = ys @ b"
    by (metis append_take_drop_id)
  with ys assms show ?thesis by simp
qed

lemma only_clears_trans:
  assumes a: "only_clears P i w w'" and b: "only_clears P i w' w''"
  shows "only_clears P i w w''"
proof -
  have "take (length (calls w)) (calls w'') = calls w \<and>
        list_all (\<lambda>c. c = AdapterDelete (the i)) (drop (length (calls w)) (calls w''))"
    using a b unfolding only_clears_def by (intro grown_trans [of _ "calls w'"]) simp_all
  moreover have "take (length (cookies_of (headers w))) (cookies_of (headers w''))
          = cookies_of (headers w) \<and>
        list_all (\<lambda>c. c = clearing_cookie P)
          (drop (length (cookies_of (headers w))) (cookies_of (headers w'')))"
    using a b unfolding only_clears_def
    by (intro grown_trans [of _ "cookies_of (headers w')"]) simp_all
  ultimately show ?thesis
    using a b unfolding only_clears_def by simp
qed

lemma persist_destroyed_only_clears:
  assumes "destroyed s"
  shows "only_clears P (sid s) w (snd (persist P inc mode s w))"
    and "sid (fst (persist P inc mode s w)) = sid s"
    and "data (fst (persist P inc mode s w)) = data s"
  using assms
  by (auto simp: persist_def Let_def only_clears_def call_delete_def emit_cookie_def
      expired_cookie_clearing cookies_of_append clearing_cookie_nonempty)

lemma step_destroyed:
  assumes "destroyed s"
  shows "destroyed (fst (step P inc op (s, w)))"
    and "sid (fst (step P inc op (s, w))) = sid s"
    and "only_clears P (sid s) w (snd (step P inc op (s, w)))"
proof -
  show "destroyed (fst (step P inc op (s, w)))"
    using assms
    by (cases op)
      (auto simp: session_set_def session_assign_def session_replace_def session_update_def
        session_delete_def session_regenerate_def session_destroy_def session_save_def
        markDirty_def persist_destroyed split: option.splits)
  show "sid (fst (step P inc op (s, w))) = sid s"
    using assms persist_destroyed_only_clears(2) [where s = s and P = P and inc = inc and w = w]
    by (cases op)
      (auto simp: session_set_def session_assign_def session_replace_def session_update_def
        session_delete_def session_regenerate_def session_destroy_def session_save_def
        markDirty_def split: option.splits)
  show "only_clears P (sid s) w (snd (step P inc op (s, w)))"
    using assms persist_destroyed_only_clears(1) [where s = s and P = P and inc = inc and w = w]
    by (cases op)
      (auto simp: session_set_def session_assign_def session_replace_def session_update_def
        session_delete_def session_regenerate_def session_destroy_def session_save_def
        only_clears_refl only_clears_def split: option.splits)
qed

lemma run_destroyed:
  assumes "destroyed s"
  shows "destroyed (fst (run P inc ops (s, w))) \<and>
         sid (fst (run P inc ops (s, w))) = sid s \<and>
         only_clears P (sid s) w (snd (run P inc ops (s, w)))"
  using assms
proof (induction ops arbitrary: s w)
  case Nil
  then show ?case by (simp add: run_def only_clears_refl)
next
  case (Cons op ops)
  obtain s1 w1 where st: "step P inc op (s, w) = (s1, w1)"
    by (cases "step P inc op (s, w)")
  from step_destroyed [OF Cons.prems, where P = P and inc = inc and op = op and w = w] st
  have d1: "destroyed s1" and i1: "sid s1 = sid s" and c1: "only_clears P (sid s) w w1"
    by simp_all
  from Cons.IH [OF d1, where w = w1] i1
  have "destroyed (fst (run P inc ops (s1, w1)))"
    and "sid (fst (run P inc ops (s1, w1))) = sid s"
    and "only_clears P (sid s) w1 (snd (run P inc ops (s1, w1)))"
    by simp_all
  with c1 st show ?case
    by (auto simp: run_def intro: only_clears_trans)
qed

lemma session_destroy_destroyed: "destroyed (fst (session_destroy P inc s w))"
  by (simp add: session_destroy_def persist_destroyed markDirty_def)

lemma session_save_committed: "committed (fst (session_save P inc s w))"
  by (simp add: session_save_def persist_commits)

lemma session_destroy_committed:
  "\<not> destroyed s \<Longrightarrow> committed (fst (session_destroy P inc s w))"
  by (simp add: session_destroy_def persist_commits)

lemma run_append: "run P inc (ops @ ops') sw = run P inc ops' (run P inc ops sw)"
  by (simp add: run_def)

lemma run_single: "run P inc [op] sw = step P inc op sw"
  by (simp add: run_def)

lemma fresh_state_eval:
  "fresh_state = \<lparr>sid = Some (IdString (js ''id-0'')), data = [(js ''visits'', JNum 0), (js ''userId'', JNull)],
      expiresAt = 61000, isNew = True, destroyed = False, revision = 0, savedRevision = 0,
      committed = False\<rparr>"
  by code_simp

lemma fresh_world_eval:
  "fresh_world = test_world\<lparr>ids_generated := 1\<rparr>"
  by code_simp

lemma lazy_state_eval:
  "lazy_state = \<lparr>sid = None, data = [(js ''visits'', JNum 0), (js ''userId'', JNull)],
      expiresAt = 61000, isNew = True, destroyed = False, revision = 0, savedRevision = 0,
      committed = False\<rparr>"
  by code_simp

text \<open>
  Claim C1, amended. Once \<open>destroy()\<close> has been invoked the destroyed state is terminal:
  through every later sequence of handle operations and through the end-of-request commit,
  \<open>destroyed\<close> stays true and the id stays what it was; \<open>regenerate()\<close> fails with the
  invalid-state error and changes nothing; and from then on the adapter is only asked to
  delete the id of the session and only clearing cookies are added to the response: no
  \<open>adapter.set\<close>, no \<open>adapter.get\<close>, no live session cookie, no new id. (The mutators
  are not refused: they still change the data in memory and the revision, see the
  counterexample; none of it is persisted.)
\<close>

theorem destroyed_is_terminal:
  "let (s1, w1) = session_destroy P inc s0 w0;
       (s2, w2) = run P inc ops (s1, w1);
       (s3, w3) = onAfterHandle P inc s2 w2
   in destroyed s1 \<and> destroyed s2 \<and> destroyed s3 \<and>
      sid s2 = sid s1 \<and> sid s3 = sid s1 \<and>
      session_regenerate P s2 w2 = (Inl InvalidStateError, s2, w2) \<and>
      only_clears P (sid s1) w1 w2 \<and> only_clears P (sid s1) w1 w3"
proof -
  obtain s1 w1 where d: "session_destroy P inc s0 w0 = (s1, w1)"
    by (cases "session_destroy P inc s0 w0")
  obtain s2 w2 where r: "run P inc ops (s1, w1) = (s2, w2)"
    by (cases "run P inc ops (s1, w1)")
  obtain s3 w3 where a: "onAfterHandle P inc s2 w2 = (s3, w3)"
    by (cases "onAfterHandle P inc s2 w2")
  have d1: "destroyed s1"
    using session_destroy_destroyed [where P = P and inc = inc and s = s0 and w = w0] d by simp
  from run_destroyed [OF d1, where P = P and inc = inc and ops = ops and w = w1] r
  have d2: "destroyed s2" and i2: "sid s2 = sid s1" and c2: "only_clears P (sid s1) w1 w2"
    by simp_all
  from persist_destroyed_only_clears [OF d2, where P = P and w = w2 and inc = inc and mode = Auto] a i2
  have c3: "only_clears P (sid s1) w2 w3" and i3: "sid s3 = sid s1"
    by (simp_all add: onAfterHandle_def)
  have d3: "destroyed s3"
    using persist_destroyed [where P = P and inc = inc and mode = Auto and s = s2 and w = w2] a d2 by (simp add: onAfterHandle_def)
  have rg: "session_regenerate P s2 w2 = (Inl InvalidStateError, s2, w2)"
    using d2 by (simp add: session_regenerate_def)
  from d r a d1 d2 d3 i2 i3 rg c2 only_clears_trans [OF c2 c3]
  show ?thesis by simp
qed

text \<open>
  Counterexample to C1 as stated: after \<open>destroy()\<close>, \<open>replace({})\<close> is carried out: the
  data changes and the revision is incremented.
\<close>

theorem mutation_after_destroy_counterexample:
  "destroyed (fst (session_destroy test_plugin None fresh_state fresh_world)) \<and>
   data (fst (session_destroy test_plugin None fresh_state fresh_world))
     = [(js ''visits'', JNum 0), (js ''userId'', JNull)] \<and>
   data (fst (step test_plugin None (OpReplace [])
                (session_destroy test_plugin None fresh_state fresh_world))) = [] \<and>
   revision (fst (step test_plugin None (OpReplace [])
                    (session_destroy test_plugin None fresh_state fresh_world)))
     = revision (fst (session_destroy test_plugin None fresh_state fresh_world)) + 1"
  by code_simp

text \<open>
  Claim C2. When the session is neither destroyed nor committed, the commit step writes to
  the store (its one adapter call is an \<open>adapter.set\<close>) if and only if: for a new session,
  \<open>createOnRequest\<close> is enabled, or the session has an id, or it is dirty
  (\<open>savedRevision\<close> differs from \<open>revision\<close>), or the mode is manual; for a loaded
  session, it is dirty, or \<open>rolling\<close> is enabled and the request carried an id. When it
  does not write, the world (store, adapter calls, response headers, id factory) is what it
  was. "Has an id" and "carried an id" are the truth tests of the source: the id is not
  \<open>null\<close> and not the empty string. The statement holds for both modes; the
  end-of-request commit is the mode \<open>Auto\<close>.
\<close>

theorem persist_writes_iff:
  assumes "\<not> destroyed s" and "\<not> committed s"
  shows "((\<exists>i r. calls (snd (persist P inc mode s w)) = calls w @ [AdapterSet i r]) \<longleftrightarrow>
            (if isNew s
             then createOnRequest P \<or> truthy (sid s) \<or> savedRevision s \<noteq> revision s \<or> mode = Manual
             else savedRevision s \<noteq> revision s \<or> (rolling P \<and> truthy inc)))
         \<and> ((\<forall>i r. calls (snd (persist P inc mode s w)) \<noteq> calls w @ [AdapterSet i r]) \<longrightarrow>
               snd (persist P inc mode s w) = w)"
  using assms
  by (auto simp: persist_def Let_def ensureId_def call_set_def emit_cookie_def call_generateId_def
      split: prod.splits if_splits)

text \<open>Witness for C2: the end-of-request commit of an untouched eager session writes.\<close>

theorem persist_writes_iff_witness:
  "\<not> destroyed fresh_state \<and> \<not> committed fresh_state \<and>
   (\<exists>i r. calls (snd (persist test_plugin None Auto fresh_state fresh_world))
            = calls fresh_world @ [AdapterSet i r])"
proof -
  have a: "\<not> destroyed fresh_state" and b: "\<not> committed fresh_state"
    by (simp_all add: fresh_state_eval)
  have c: "isNew fresh_state" "createOnRequest test_plugin"
    by (simp_all add: fresh_state_eval test_plugin_def)
  from persist_writes_iff [OF a b, of test_plugin None Auto fresh_world] c a b
  show ?thesis by simp
qed

text \<open>
  Claim C3, amended. The commit step does nothing at all when \<open>committed\<close> is already
  true. Hence, after every sequence of operations that ends with \<open>save()\<close>, and after
  every sequence that ends with \<open>destroy()\<close> on a session not yet destroyed, the
  end-of-request commit calls no adapter and emits no cookie. (A mutation or a regenerate
  after the manual commit clears \<open>committed\<close> again, and then the end-of-request commit
  runs its effects once more: see the counterexample.)
\<close>

theorem commit_once_after_manual_commit:
  "(committed s \<longrightarrow> persist P inc mode s w = (s, w)) \<and>
   onAfterHandle P inc (fst (run P inc (ops @ [OpSave]) (s, w))) (snd (run P inc (ops @ [OpSave]) (s, w)))
     = run P inc (ops @ [OpSave]) (s, w) \<and>
   (\<not> destroyed (fst (run P inc ops (s, w))) \<longrightarrow>
      onAfterHandle P inc (fst (run P inc (ops @ [OpDestroy]) (s, w)))
          (snd (run P inc (ops @ [OpDestroy]) (s, w)))
        = run P inc (ops @ [OpDestroy]) (s, w))"
proof -
  obtain s1 w1 where r: "run P inc ops (s, w) = (s1, w1)"
    by (cases "run P inc ops (s, w)")
  have "committed (fst (session_save P inc s1 w1))"
    by (rule session_save_committed)
  then have 1: "onAfterHandle P inc (fst (session_save P inc s1 w1)) (snd (session_save P inc s1 w1))
      = session_save P inc s1 w1"
    by (simp add: onAfterHandle_def persist_committed)
  have 2: "onAfterHandle P inc (fst (session_destroy P inc s1 w1)) (snd (session_destroy P inc s1 w1))
      = session_destroy P inc s1 w1" if "\<not> destroyed s1"
    using session_destroy_committed [OF that, where P = P and inc = inc and w = w1]
    by (simp add: onAfterHandle_def persist_committed)
  from r 1 2 show ?thesis
    by (simp add: run_append run_single persist_committed)
qed

text \<open>Witness for C3: a session that was saved, and one that was replaced and destroyed.\<close>

theorem commit_once_after_manual_commit_witness:
  "committed (fst (session_save test_plugin None fresh_state fresh_world)) \<and>
   persist test_plugin None Auto (fst (session_save test_plugin None fresh_state fresh_world))
       (snd (session_save test_plugin None fresh_state fresh_world))
     = session_save test_plugin None fresh_state fresh_world \<and>
   \<not> destroyed (fst (run test_plugin None [OpReplace []] (fresh_state, fresh_world))) \<and>
   onAfterHandle test_plugin None
       (fst (run test_plugin None ([OpReplace []] @ [OpDestroy]) (fresh_state, fresh_world)))
       (snd (run test_plugin None ([OpReplace []] @ [OpDestroy]) (fresh_state, fresh_world)))
     = run test_plugin None ([OpReplace []] @ [OpDestroy]) (fresh_state, fresh_world)"
proof -
  have c: "committed (fst (session_save test_plugin None fresh_state fresh_world))"
    by code_simp
  have d: "\<not> destroyed (fst (run test_plugin None [OpReplace []] (fresh_state, fresh_world)))"
    by code_simp
  from commit_once_after_manual_commit
         [of "fst (session_save test_plugin None fresh_state fresh_world)" test_plugin None Auto
             "snd (session_save test_plugin None fresh_state fresh_world)" "[]"]
       c
  have 1: "persist test_plugin None Auto (fst (session_save test_plugin None fresh_state fresh_world))
       (snd (session_save test_plugin None fresh_state fresh_world))
     = session_save test_plugin None fresh_state fresh_world"
    by simp
  from commit_once_after_manual_commit
         [of fresh_state test_plugin None Auto fresh_world "[OpReplace []]"] d
  have 2: "onAfterHandle test_plugin None
       (fst (run test_plugin None ([OpReplace []] @ [OpDestroy]) (fresh_state, fresh_world)))
       (snd (run test_plugin None ([OpReplace []] @ [OpDestroy]) (fresh_state, fresh_world)))
     = run test_plugin None ([OpReplace []] @ [OpDestroy]) (fresh_state, fresh_world)"
    by blast
  from c d 1 2 show ?thesis by blast
qed

text \<open>
  Counterexample to C3 as stated: the handler saves and then replaces the data. The save
  has committed and written once; the end-of-request commit writes a second time.
\<close>

theorem commit_twice_counterexample:
  "committed (fst (run test_plugin None [OpSave] (fresh_state, fresh_world))) \<and>
   calls (snd (run test_plugin None [OpSave, OpReplace []] (fresh_state, fresh_world)))
     = [AdapterSet (IdString (js ''id-0''))
          \<lparr>stored_data = [(js ''visits'', JNum 0), (js ''userId'', JNull)],
           stored_expiresAt = 61000\<rparr>] \<and>
   calls (snd (onAfterHandle test_plugin None
                 (fst (run test_plugin None [OpSave, OpReplace []] (fresh_state, fresh_world)))
                 (snd (run test_plugin None [OpSave, OpReplace []] (fresh_state, fresh_world)))))
     = [AdapterSet (IdString (js ''id-0''))
          \<lparr>stored_data = [(js ''visits'', JNum 0), (js ''userId'', JNull)],
           stored_expiresAt = 61000\<rparr>,
        AdapterSet (IdString (js ''id-0'')) \<lparr>stored_data = [], stored_expiresAt = 61000\<rparr>]"
  by code_simp

text \<open>
  Claim C4, amended. \<open>destroy()\<close> is idempotent: for every session state, a second call
  right after the first changes nothing (same state, same adapter calls, same response
  headers as after one call), and on a session already destroyed the call returns without
  effect. On a session not yet destroyed the call issues exactly one \<open>adapter.delete\<close>,
  of the session's id, when the session has an id and none when it has not; it adds exactly
  one clearing cookie when the session has an id or the request carried one, and none
  otherwise.
\<close>

theorem destroy_idempotent:
  "session_destroy P inc (fst (session_destroy P inc s w)) (snd (session_destroy P inc s w))
     = session_destroy P inc s w \<and>
   (destroyed s \<longrightarrow> session_destroy P inc s w = (s, w)) \<and>
   (\<not> destroyed s \<longrightarrow>
      calls (snd (session_destroy P inc s w))
        = calls w @ (if truthy (sid s) then [AdapterDelete (the (sid s))] else []) \<and>
      cookies_of (headers (snd (session_destroy P inc s w)))
        = cookies_of (headers w) @ (if truthy inc \<or> truthy (sid s) then [clearing_cookie P] else []))"
proof -
  have "session_destroy P inc (fst (session_destroy P inc s w)) (snd (session_destroy P inc s w))
     = session_destroy P inc s w"
    using session_destroy_destroyed [where P = P and inc = inc and s = s and w = w]
    by (simp add: session_destroy_def [where s = "fst (session_destroy P inc s w)"])
  moreover have "destroyed s \<longrightarrow> session_destroy P inc s w = (s, w)"
    by (simp add: session_destroy_def)
  moreover have "\<not> destroyed s \<longrightarrow>
      calls (snd (session_destroy P inc s w))
        = calls w @ (if truthy (sid s) then [AdapterDelete (the (sid s))] else []) \<and>
      cookies_of (headers (snd (session_destroy P inc s w)))
        = cookies_of (headers w) @ (if truthy inc \<or> truthy (sid s) then [clearing_cookie P] else [])"
    by (auto simp: session_destroy_def persist_def markDirty_def Let_def call_delete_def
        emit_cookie_def expired_cookie_clearing cookies_of_append clearing_cookie_nonempty)
  ultimately show ?thesis by blast
qed

text \<open>Witness for C4: destroying an eager session, which has an id.\<close>

theorem destroy_idempotent_witness:
  "\<not> destroyed fresh_state \<and>
   session_destroy test_plugin None
       (fst (session_destroy test_plugin None fresh_state fresh_world))
       (snd (session_destroy test_plugin None fresh_state fresh_world))
     = session_destroy test_plugin None fresh_state fresh_world \<and>
   calls (snd (session_destroy test_plugin None fresh_state fresh_world))
     = [AdapterDelete (IdString (js ''id-0''))] \<and>
   cookies_of (headers (snd (session_destroy test_plugin None fresh_state fresh_world)))
     = [clearing_cookie test_plugin]"
proof -
  have a: "\<not> destroyed fresh_state" "truthy (sid fresh_state)" "the (sid fresh_state) = IdString (js ''id-0'')"
    by (simp_all add: fresh_state_eval truthy_def js_def)
  have b: "calls fresh_world = []" "cookies_of (headers fresh_world) = []"
    by (simp_all add: fresh_world_eval test_world_def cookies_of_def)
  from destroy_idempotent [of test_plugin None fresh_state fresh_world] a b
  show ?thesis by simp
qed

text \<open>
  Counterexample to C4 as stated: a lazy session without id, in a request without cookie.
  \<open>destroy()\<close> marks it destroyed, calls no \<open>adapter.delete\<close> and emits no cookie.
\<close>

theorem destroy_without_id_counterexample:
  "\<not> destroyed lazy_state \<and>
   destroyed (fst (session_destroy lazy_plugin None lazy_state test_world)) \<and>
   calls (snd (session_destroy lazy_plugin None lazy_state test_world)) = [] \<and>
   headers (snd (session_destroy lazy_plugin None lazy_state test_world)) = HUndefined"
  by code_simp

lemma appendSetCookie_changes: "c \<noteq> [] \<Longrightarrow> appendSetCookie h c \<noteq> h"
  by (cases h) (auto simp: appendSetCookie_def)

lemma run_handler_passes_time:
  "list_all passes_time ops \<Longrightarrow>
   run_handler P inc ops (s, w) = (None, s, w\<lparr>clock := clock w + sum_list (map elapsed ops)\<rparr>)"
proof (induction ops arbitrary: w)
  case Nil
  show ?case by simp
next
  case (Cons op ops)
  from Cons.prems obtain k where op: "op = Elapse k"
    by (cases op) simp_all
  from Cons.prems have "list_all passes_time ops"
    by simp
  from Cons.IH [OF this, of "w\<lparr>clock := clock w + k\<rparr>"]
  show ?case
    by (simp add: op throws_def add.assoc)
qed

text \<open>
  Claim C5, amended. With \<open>createOnRequest\<close> disabled, a request whose handler issues no
  operation on the session, however long it takes, has exactly these effects. The handler
  returns and the end-of-request commit runs. There is an \<open>adapter.get\<close> when the id read
  from the request is truthy; an \<open>adapter.set\<close> (of the stored data, with the expiry the
  commit computed) and a live session cookie only when that id has a valid record and
  \<open>rolling\<close> is enabled (the refresh of the TTL); a clearing cookie only when that id has
  no valid record. So when the id read from the request is absent or empty, or it is valid
  with \<open>rolling\<close> disabled, the response headers are untouched and no write is made; in
  the other cases the headers change. The id read from the request is the value of
  \<open>incomingCookies[cookie.name]\<close>.
\<close>

theorem lazy_read_only_request:
  assumes "\<not> createOnRequest P" and "list_all passes_time ops"
  shows "let inc = incoming_id P cookieHeader;
             stored = (if truthy inc then fst (adapter_get (adapter P) (the inc) (store w)) else None);
             refresh = (stored \<noteq> None \<and> rolling P);
             (thrown, s', w') = handle_request P cookieHeader ops w
         in thrown = None \<and>
            calls w' = calls w @ (if truthy inc then [AdapterGet (the inc)] else [])
                         @ (if refresh
                            then [AdapterSet (the inc)
                                    \<lparr>stored_data = stored_data (the stored),
                                     stored_expiresAt = expiresAt s'\<rparr>]
                            else []) \<and>
            (if refresh
             then (\<exists>t. cookies_of (headers w')
                         = cookies_of (headers w)
                             @ [serializeSessionCookie (builtins P) t (c_name (cookie P))
                                  (id_string (builtins P) (the inc)) (expiresAt s') (cookie P)])
             else cookies_of (headers w')
                    = cookies_of (headers w)
                        @ (if truthy inc \<and> stored = None then [clearing_cookie P] else [])) \<and>
            (if truthy inc \<and> (stored = None \<or> rolling P)
             then headers w' \<noteq> headers w
             else headers w' = headers w)"
proof (cases "truthy (incoming_id P cookieHeader)")
  case False
  define s0 where "s0 = \<lparr>sid = None, data = initialData P, expiresAt = int (clock w) + ttl P,
                         isNew = True, destroyed = False, revision = 0, savedRevision = 0,
                         committed = False\<rparr>"
  have r: "resolve P cookieHeader w = (incoming_id P cookieHeader, s0, w)"
    using assms(1) False by (simp add: resolve_def Let_def s0_def)
  define n where "n = sum_list (map elapsed ops)"
  have ru: "run_handler P (incoming_id P cookieHeader) ops (s0, w)
              = (None, s0, w\<lparr>clock := clock w + n\<rparr>)"
    unfolding n_def by (rule run_handler_passes_time [OF assms(2)])
  have "persist P (incoming_id P cookieHeader) Auto s0 (w\<lparr>clock := clock w + n\<rparr>)
          = (s0\<lparr>committed := True\<rparr>, w\<lparr>clock := clock w + n\<rparr>)"
    using assms(1) by (simp add: persist_def Let_def s0_def truthy_def)
  then have "handle_request P cookieHeader ops w
          = (None, s0\<lparr>committed := True\<rparr>, w\<lparr>clock := clock w + n\<rparr>)"
    by (simp add: handle_request_def r ru onAfterHandle_def)
  with False show ?thesis
    by (simp add: Let_def)
next
  case True
  let ?inc = "incoming_id P cookieHeader"
  obtain r st where g: "adapter_get (adapter P) (the ?inc) (store w) = (r, st)"
    by (cases "adapter_get (adapter P) (the ?inc) (store w)")
  show ?thesis
  proof (cases r)
    case None
    define w1 where "w1 = w\<lparr>store := st, calls := calls w @ [AdapterGet (the ?inc)],
                             headers := appendSetCookie (headers w) (clearing_cookie P)\<rparr>"
    define s0 where "s0 = \<lparr>sid = None, data = initialData P, expiresAt = int (clock w) + ttl P,
                           isNew = True, destroyed = False, revision = 0, savedRevision = 0,
                           committed = False\<rparr>"
    have r: "resolve P cookieHeader w = (?inc, s0, w1)"
      using assms(1) True g None
      by (simp add: resolve_def Let_def call_get_def emit_cookie_def expired_cookie_clearing
          s0_def w1_def)
    define n where "n = sum_list (map elapsed ops)"
    have ru: "run_handler P ?inc ops (s0, w1) = (None, s0, w1\<lparr>clock := clock w1 + n\<rparr>)"
      unfolding n_def by (rule run_handler_passes_time [OF assms(2)])
    have "persist P ?inc Auto s0 (w1\<lparr>clock := clock w1 + n\<rparr>)
            = (s0\<lparr>committed := True\<rparr>, w1\<lparr>clock := clock w1 + n\<rparr>)"
      using assms(1) by (simp add: persist_def Let_def s0_def truthy_def)
    then have "handle_request P cookieHeader ops w
            = (None, s0\<lparr>committed := True\<rparr>, w1\<lparr>clock := clock w1 + n\<rparr>)"
      by (simp add: handle_request_def r ru onAfterHandle_def)
    with True g None show ?thesis
      by (simp add: Let_def w1_def cookies_of_append clearing_cookie_nonempty
          appendSetCookie_changes)
  next
    case (Some rec)
    define w1 where "w1 = w\<lparr>store := st, calls := calls w @ [AdapterGet (the ?inc)]\<rparr>"
    define s0 where "s0 = \<lparr>sid = ?inc, data = stored_data rec, expiresAt = stored_expiresAt rec,
                           isNew = False, destroyed = False, revision = 0, savedRevision = 0,
                           committed = False\<rparr>"
    have r: "resolve P cookieHeader w = (?inc, s0, w1)"
      using True g Some
      by (simp add: resolve_def Let_def call_get_def s0_def w1_def)
    define n where "n = sum_list (map elapsed ops)"
    have ru: "run_handler P ?inc ops (s0, w1) = (None, s0, w1\<lparr>clock := clock w1 + n\<rparr>)"
      unfolding n_def by (rule run_handler_passes_time [OF assms(2)])
    show ?thesis
    proof (cases "rolling P")
      case False
      have "persist P ?inc Auto s0 (w1\<lparr>clock := clock w1 + n\<rparr>)
              = (s0\<lparr>committed := True\<rparr>, w1\<lparr>clock := clock w1 + n\<rparr>)"
        using False by (simp add: persist_def Let_def s0_def)
      then have "handle_request P cookieHeader ops w
              = (None, s0\<lparr>committed := True\<rparr>, w1\<lparr>clock := clock w1 + n\<rparr>)"
        by (simp add: handle_request_def r ru onAfterHandle_def)
      with True g Some False show ?thesis
        by (simp add: Let_def w1_def)
    next
      case rolling: True
      define e where "e = int (clock w1 + n) + ttl P"
      define c where "c = serializeSessionCookie (builtins P) (int (clock w1 + n)) (c_name (cookie P))
                            (id_string (builtins P) (the ?inc)) e (cookie P)"
      have cne: "c \<noteq> []"
        by (simp add: c_def serializeSessionCookie_def withCookieAttributes_nonempty)
      have "persist P ?inc Auto s0 (w1\<lparr>clock := clock w1 + n\<rparr>)
              = (s0\<lparr>expiresAt := e, isNew := False, savedRevision := 0, committed := True\<rparr>,
                 w1\<lparr>clock := clock w1 + n,
                    store := adapter_set (adapter P) (the ?inc)
                               \<lparr>stored_data = stored_data rec, stored_expiresAt = e\<rparr> st,
                    calls := calls w @ [AdapterGet (the ?inc),
                               AdapterSet (the ?inc) \<lparr>stored_data = stored_data rec, stored_expiresAt = e\<rparr>],
                    headers := appendSetCookie (headers w) c\<rparr>)"
        using True rolling
        by (simp add: persist_def Let_def s0_def
            ensureId_def call_set_def emit_cookie_def session_cookie_def w1_def e_def c_def)
      then have "handle_request P cookieHeader ops w
              = (None, s0\<lparr>expiresAt := e, isNew := False, savedRevision := 0, committed := True\<rparr>,
                 w1\<lparr>clock := clock w1 + n,
                    store := adapter_set (adapter P) (the ?inc)
                               \<lparr>stored_data = stored_data rec, stored_expiresAt = e\<rparr> st,
                    calls := calls w @ [AdapterGet (the ?inc),
                               AdapterSet (the ?inc) \<lparr>stored_data = stored_data rec, stored_expiresAt = e\<rparr>],
                    headers := appendSetCookie (headers w) c\<rparr>)"
        by (simp add: handle_request_def r ru onAfterHandle_def)
      with True g Some rolling cne show ?thesis
        by (auto simp: Let_def cookies_of_append appendSetCookie_changes c_def)
    qed
  qed
qed

text \<open>
  Witness for C5: a request without cookie, and a request with the id of a live record to a
  plugin with \<open>rolling\<close> disabled; in both the handler takes 250 ms.
\<close>

theorem lazy_read_only_request_witness:
  "\<not> createOnRequest lazy_plugin \<and> list_all passes_time [Elapse 250] \<and>
   \<not> truthy (incoming_id lazy_plugin None) \<and>
   fst (handle_request lazy_plugin None [Elapse 250] test_world) = None \<and>
   calls (snd (snd (handle_request lazy_plugin None [Elapse 250] test_world))) = calls test_world \<and>
   headers (snd (snd (handle_request lazy_plugin None [Elapse 250] test_world)))
     = headers test_world \<and>
   \<not> createOnRequest static_plugin \<and> \<not> rolling static_plugin \<and>
   incoming_id static_plugin (Some (js ''sid=abc'')) = Some (IdString (js ''abc'')) \<and>
   fst (adapter_get (adapter static_plugin) (IdString (js ''abc'')) (store test_world)) \<noteq> None \<and>
   calls (snd (snd (handle_request static_plugin (Some (js ''sid=abc'')) [Elapse 250] test_world)))
     = calls test_world @ [AdapterGet (IdString (js ''abc''))] \<and>
   headers (snd (snd (handle_request static_plugin (Some (js ''sid=abc'')) [Elapse 250] test_world)))
     = headers test_world"
proof -
  have a: "\<not> createOnRequest lazy_plugin" "\<not> createOnRequest static_plugin"
    "\<not> rolling static_plugin"
    by (simp_all add: lazy_plugin_def static_plugin_def)
  have b: "list_all passes_time [Elapse 250]"
    by simp
  have c: "\<not> truthy (incoming_id lazy_plugin None)"
    by code_simp
  have d: "incoming_id static_plugin (Some (js ''sid=abc'')) = Some (IdString (js ''abc''))"
    by code_simp
  have t: "truthy (Some (IdString (js ''abc'')))"
    by (simp add: truthy_def js_def)
  have e: "fst (adapter_get (adapter static_plugin) (IdString (js ''abc'')) (store test_world)) \<noteq> None"
    by code_simp
  from lazy_read_only_request [OF a(1) b, of None test_world] c
  have 1: "fst (handle_request lazy_plugin None [Elapse 250] test_world) = None \<and>
    calls (snd (snd (handle_request lazy_plugin None [Elapse 250] test_world))) = calls test_world \<and>
    headers (snd (snd (handle_request lazy_plugin None [Elapse 250] test_world)))
      = headers test_world"
    by (simp add: Let_def split_beta)
  from lazy_read_only_request [OF a(2) b, of "Some (js ''sid=abc'')" test_world] d t e a(3)
  have 2: "calls (snd (snd (handle_request static_plugin (Some (js ''sid=abc'')) [Elapse 250] test_world)))
     = calls test_world @ [AdapterGet (IdString (js ''abc''))] \<and>
   headers (snd (snd (handle_request static_plugin (Some (js ''sid=abc'')) [Elapse 250] test_world)))
     = headers test_world"
    by (simp add: Let_def split_beta)
  from a b c d e 1 2 show ?thesis
    by blast
qed

text \<open>
  Counterexample to C5 as stated: \<open>createOnRequest\<close> is disabled, the request carries the
  id of a live record and the handler does nothing. With \<open>rolling\<close> enabled the commit
  writes the record back and the response carries a session cookie.
\<close>

theorem lazy_rolling_refresh_counterexample:
  "\<not> createOnRequest lazy_plugin \<and>
   fst (handle_request lazy_plugin (Some (js ''sid=abc'')) [] test_world) = None \<and>
   calls (snd (snd (handle_request lazy_plugin (Some (js ''sid=abc'')) [] test_world)))
     = [AdapterGet (IdString (js ''abc'')),
        AdapterSet (IdString (js ''abc''))
          \<lparr>stored_data = [(js ''visits'', JNum 1), (js ''userId'', JNull)],
           stored_expiresAt = 61000\<rparr>] \<and>
   headers (snd (snd (handle_request lazy_plugin (Some (js ''sid=abc'')) [] test_world)))
     = HString (js ''sid=abc; Path=/; SameSite=Lax; Max-Age=60; Expires=t61000; HttpOnly'')"
  by code_simp

text \<open>
  The id of the request is a property lookup. With a cookie named \<open>toString\<close> and a
  request without cookie, the lookup yields the inherited function: it is truthy, the
  adapter is asked for it, has no record, and the response carries a clearing cookie.
\<close>

lemma inherited_member_read_as_id:
  "incoming_id member_plugin None = Some (IdMember (js ''toString'')) \<and>
   truthy (incoming_id member_plugin None) \<and>
   calls (snd (snd (handle_request member_plugin None [] test_world)))
     = [AdapterGet (IdMember (js ''toString''))] \<and>
   headers (snd (snd (handle_request member_plugin None [] test_world)))
     = HString (js ''toString=; Path=/; SameSite=Lax; Max-Age=0; Expires=t0; HttpOnly'')"
  by code_simp

text \<open>
  Claim C6. On a session that is not destroyed, \<open>regenerate()\<close> returns the id the
  factory generates at this call, makes it the id of the session, sets \<open>isNew\<close>,
  increments the revision and keeps the data; and within the call itself it calls
  \<open>adapter.delete\<close> on the previous id exactly when there was one (not \<open>null\<close>, not
  empty) and it differs from the new id. It adds no cookie.
\<close>

theorem regenerate_rotates_id:
  assumes "\<not> destroyed s"
  shows "let g = generateId P (ids_generated w);
             (r, s', w') = session_regenerate P s w
         in r = Inr g \<and> sid s' = Some (IdString g) \<and> isNew s' \<and> revision s' = revision s + 1 \<and>
            data s' = data s \<and> \<not> destroyed s' \<and>
            ids_generated w' = ids_generated w + 1 \<and>
            calls w' = calls w @ (if truthy (sid s) \<and> sid s \<noteq> Some (IdString g)
                                  then [AdapterDelete (the (sid s))] else []) \<and>
            headers w' = headers w"
  using assms
  by (auto simp: session_regenerate_def Let_def call_generateId_def markDirty_def call_delete_def)

text \<open>Witness for C6: regenerating an eager session replaces \<open>id-0\<close> by \<open>id-1\<close>.\<close>

theorem regenerate_rotates_id_witness:
  "\<not> destroyed fresh_state \<and>
   fst (session_regenerate test_plugin fresh_state fresh_world) = Inr (js ''id-1'') \<and>
   sid (fst (snd (session_regenerate test_plugin fresh_state fresh_world)))
     = Some (IdString (js ''id-1'')) \<and>
   calls (snd (snd (session_regenerate test_plugin fresh_state fresh_world)))
     = [AdapterDelete (IdString (js ''id-0''))]"
proof -
  have a: "\<not> destroyed fresh_state" "truthy (sid fresh_state)" "sid fresh_state = Some (IdString (js ''id-0''))"
    by (simp_all add: fresh_state_eval truthy_def js_def)
  have b: "calls fresh_world = []"
    by (simp add: fresh_world_eval test_world_def)
  have g: "generateId test_plugin (ids_generated fresh_world) = js ''id-1''"
    by code_simp
  have ne: "js ''id-0'' \<noteq> js ''id-1''"
    by (simp add: js_def)
  from regenerate_rotates_id [OF a(1), of test_plugin fresh_world] a b g ne
  show ?thesis
    by (simp add: Let_def split_beta)
qed

text \<open>
  Claim C7. After \<open>destroy()\<close>, at any later point of the request, \<open>regenerate()\<close> fails
  with the invalid-state error, and the failed call leaves the state of the session and the
  world exactly as they were.
\<close>

theorem regenerate_after_destroy_fails:
  "let (s1, w1) = run P inc ops (session_destroy P inc s w)
   in session_regenerate P s1 w1 = (Inl InvalidStateError, s1, w1)"
proof -
  obtain s0 w0 where d: "session_destroy P inc s w = (s0, w0)"
    by (cases "session_destroy P inc s w")
  then have "destroyed s0"
    using session_destroy_destroyed [where P = P and inc = inc and s = s and w = w] by simp
  from run_destroyed [OF this, where P = P and inc = inc and ops = ops and w = w0]
  have "destroyed (fst (run P inc ops (s0, w0)))"
    by simp
  with d show ?thesis
    by (simp add: session_regenerate_def split_beta)
qed






section \<open>Properties of the in-memory adapter\<close>

lemma traverse_mono:
  "traverse f xs = Some ys \<Longrightarrow> (\<And>x y. x \<in> set xs \<Longrightarrow> f x = Some y \<Longrightarrow> g x = Some y)
     \<Longrightarrow> traverse g xs = Some ys"
  by (induction xs arbitrary: ys) (auto split: option.splits)

lemma traverse_length: "traverse f xs = Some ys \<Longrightarrow> length ys = length xs"
  by (induction xs arbitrary: ys) (auto split: option.splits)

lemma json_in_frame:
  "json_in A n h v = Some j \<Longrightarrow>
     (\<And>a. A a \<Longrightarrow> a < length h \<Longrightarrow> B a \<and> a < length h' \<and> h' ! a = h ! a) \<Longrightarrow>
     json_in B n h' v = Some j"
proof (induction n arbitrary: v j)
  case 0
  then show ?case by (auto split: jsval.splits)
next
  case (Suc n)
  show ?case
  proof (cases v)
    case (VRef a)
    with Suc.prems(1) have a: "a < length h" "A a"
      by (auto split: if_splits)
    with Suc.prems(2) have b: "B a" "a < length h'" "h' ! a = h ! a"
      by auto
    show ?thesis
    proof (cases "h ! a")
      case (HObject props)
      with Suc.prems(1) VRef a obtain jl where
        t: "traverse (json_in A n h) (map snd props) = Some jl" and j: "j = JObj (zip (map fst props) jl)"
        by auto
      have "traverse (json_in B n h') (map snd props) = Some jl"
        by (rule traverse_mono [OF t], erule Suc.IH) (use Suc.prems(2) in blast)
      with VRef b HObject j show ?thesis by simp
    next
      case (HArrayObj vs)
      with Suc.prems(1) VRef a obtain jl where
        t: "traverse (json_in A n h) vs = Some jl" and j: "j = JArr jl"
        by auto
      have "traverse (json_in B n h') vs = Some jl"
        by (rule traverse_mono [OF t], erule Suc.IH) (use Suc.prems(2) in blast)
      with VRef b HArrayObj j show ?thesis by simp
    qed
  qed (use Suc.prems in auto)
qed

lemma json_in_fuel:
  "json_in A n h v = Some j \<Longrightarrow> n \<le> m \<Longrightarrow> json_in A m h v = Some j"
proof (induction n arbitrary: v j m)
  case 0
  then show ?case by (cases m) (auto split: jsval.splits)
next
  case (Suc n)
  then obtain m' where m: "m = Suc m'" "n \<le> m'"
    by (cases m) auto
  show ?case
  proof (cases v)
    case (VRef a)
    with Suc.prems(1) have a: "a < length h" "A a"
      by (auto split: if_splits)
    show ?thesis
    proof (cases "h ! a")
      case (HObject props)
      with Suc.prems(1) VRef a obtain jl where
        t: "traverse (json_in A n h) (map snd props) = Some jl" and j: "j = JObj (zip (map fst props) jl)"
        by auto
      have "traverse (json_in A m' h) (map snd props) = Some jl"
        by (rule traverse_mono [OF t], erule Suc.IH) (rule m(2))
      with VRef a HObject j m show ?thesis by simp
    next
      case (HArrayObj vs)
      with Suc.prems(1) VRef a obtain jl where
        t: "traverse (json_in A n h) vs = Some jl" and j: "j = JArr jl"
        by auto
      have "traverse (json_in A m' h) vs = Some jl"
        by (rule traverse_mono [OF t], erule Suc.IH) (rule m(2))
      with VRef a HArrayObj j m show ?thesis by simp
    qed
  qed (use Suc.prems m in auto)
qed

lemma json_in_append:
  "json_in A n h v = Some j \<Longrightarrow> (\<And>a. A a \<Longrightarrow> B a) \<Longrightarrow> json_in B n (h @ ext) v = Some j"
  by (erule json_in_frame) (simp add: nth_append)

lemma clone_all_fresh:
  assumes IH: "\<And>h v j. json_in (\<lambda>a. True) n h v = Some j \<Longrightarrow>
                 \<exists>ext v'. clone_value n h v = Some (h @ ext, v') \<and>
                   json_in (\<lambda>a. length h \<le> a) n (h @ ext) v' = Some j"
  shows "traverse (json_in (\<lambda>a. True) n h) vs = Some jl \<Longrightarrow>
           \<exists>ext vs'. clone_all (clone_value n) (h @ e) vs = Some (h @ e @ ext, vs') \<and>
             traverse (json_in (\<lambda>a. length h \<le> a) n (h @ e @ ext)) vs' = Some jl"
proof (induction vs arbitrary: e jl)
  case Nil
  then show ?case by simp
next
  case (Cons v vs)
  from Cons.prems obtain j jl' where
    j: "json_in (\<lambda>a. True) n h v = Some j" and
    t: "traverse (json_in (\<lambda>a. True) n h) vs = Some jl'" and
    jeq: "jl = j # jl'"
    by (auto split: option.splits)
  from j have "json_in (\<lambda>a. True) n (h @ e) v = Some j"
    by (rule json_in_append) simp
  from IH [OF this] obtain ext1 v' where
    c1: "clone_value n (h @ e) v = Some ((h @ e) @ ext1, v')" and
    j1: "json_in (\<lambda>a. length (h @ e) \<le> a) n ((h @ e) @ ext1) v' = Some j"
    by blast
  from Cons.IH [OF t, of "e @ ext1"] obtain ext2 vs' where
    c2: "clone_all (clone_value n) (h @ e @ ext1) vs = Some (h @ (e @ ext1) @ ext2, vs')" and
    j2: "traverse (json_in (\<lambda>a. length h \<le> a) n (h @ (e @ ext1) @ ext2)) vs' = Some jl'"
    by auto
  have "json_in (\<lambda>a. length h \<le> a) n (((h @ e) @ ext1) @ ext2) v' = Some j"
    using j1 by (rule json_in_append) simp
  with c1 c2 j2 jeq show ?case
    by (intro exI [of _ "ext1 @ ext2"] exI [of _ "v' # vs'"]) simp
qed

lemma clone_value_fresh:
  "json_in (\<lambda>a. True) n h v = Some j \<Longrightarrow>
     \<exists>ext v'. clone_value n h v = Some (h @ ext, v') \<and>
       json_in (\<lambda>a. length h \<le> a) n (h @ ext) v' = Some j"
proof (induction n arbitrary: h v j)
  case 0
  then show ?case by (cases v) auto
next
  case (Suc n)
  show ?case
  proof (cases v)
    case (VRef a)
    with Suc.prems have a: "a < length h"
      by (auto split: if_splits)
    show ?thesis
    proof (cases "h ! a")
      case (HObject props)
      with Suc.prems VRef a obtain jl where
        t: "traverse (json_in (\<lambda>a. True) n h) (map snd props) = Some jl" and
        j: "j = JObj (zip (map fst props) jl)"
        by auto
      from clone_all_fresh [where e = "[]", OF Suc.IH t] obtain ext vs' where
        c: "clone_all (clone_value n) h (map snd props) = Some (h @ ext, vs')" and
        t': "traverse (json_in (\<lambda>a. length h \<le> a) n (h @ ext)) vs' = Some jl"
        by auto
      have len: "length vs' = length props"
        using traverse_length [OF t'] traverse_length [OF t] by simp
      let ?obj = "HObject (zip (map fst props) vs')"
      have t'': "traverse (json_in (\<lambda>a. length h \<le> a) n ((h @ ext) @ [?obj])) vs' = Some jl"
        by (rule traverse_mono [OF t'], erule json_in_append) simp
      have "json_in (\<lambda>a. length h \<le> a) (Suc n) ((h @ ext) @ [?obj]) (VRef (length (h @ ext)))
              = Some j"
        using t'' len j by (simp add: nth_append)
      with c VRef a HObject show ?thesis
        by (intro exI [of _ "ext @ [?obj]"] exI [of _ "VRef (length (h @ ext))"]) simp
    next
      case (HArrayObj vs)
      with Suc.prems VRef a obtain jl where
        t: "traverse (json_in (\<lambda>a. True) n h) vs = Some jl" and
        j: "j = JArr jl"
        by auto
      from clone_all_fresh [where e = "[]", OF Suc.IH t] obtain ext vs' where
        c: "clone_all (clone_value n) h vs = Some (h @ ext, vs')" and
        t': "traverse (json_in (\<lambda>a. length h \<le> a) n (h @ ext)) vs' = Some jl"
        by auto
      let ?obj = "HArrayObj vs'"
      have t'': "traverse (json_in (\<lambda>a. length h \<le> a) n ((h @ ext) @ [?obj])) vs' = Some jl"
        by (rule traverse_mono [OF t'], erule json_in_append) simp
      have "json_in (\<lambda>a. length h \<le> a) (Suc n) ((h @ ext) @ [?obj]) (VRef (length (h @ ext)))
              = Some j"
        using t'' j by (simp add: nth_append)
      with c VRef a HArrayObj show ?thesis
        by (intro exI [of _ "ext @ [?obj]"] exI [of _ "VRef (length (h @ ext))"]) simp
    qed
  qed (use Suc.prems in auto)
qed

text \<open>The default clone strategy is a deep clone strategy.\<close>

lemma defaultClone_deep: "deep_clone_strategy defaultClone"
  unfolding deep_clone_strategy_def defaultClone_def json_of_def
proof (intro allI impI)
  fix h v j
  assume "json_in (\<lambda>a. True) (length h) h v = Some j"
  from clone_value_fresh [OF this] obtain ext v' where
    c: "clone_value (length h) h v = Some (h @ ext, v')" and
    j: "json_in (\<lambda>a. length h \<le> a) (length h) (h @ ext) v' = Some j"
    by blast
  from j have "json_in (\<lambda>a. length h \<le> a) (length (h @ ext)) (h @ ext) v' = Some j"
    by (rule json_in_fuel) simp
  with c show "\<exists>ext v'. clone_value (length h) h v = Some (h @ ext, v') \<and>
                 json_in (\<lambda>a. length h \<le> a) (length (h @ ext)) (h @ ext) v' = Some j"
    by blast
qed

lemma untouched_nth:
  "untouched lo hi h h' \<Longrightarrow> lo \<le> a \<Longrightarrow> a < hi \<Longrightarrow> h' ! a = h ! a"
  by (simp add: untouched_def list_all_iff)

lemma untouched_trans:
  "untouched lo hi h1 h2 \<Longrightarrow> untouched lo hi h2 h3 \<Longrightarrow> untouched lo hi h1 h3"
  by (auto simp: untouched_def list_all_iff)

text \<open>
  A caller that writes to an object outside the addresses from \<open>lo\<close> up to \<open>hi\<close>
  leaves them untouched.
\<close>

lemma untouched_update:
  "untouched lo hi h h' \<Longrightarrow> a < lo \<or> hi \<le> a \<Longrightarrow> untouched lo hi h (h'[a := obj])"
  by (auto simp: untouched_def list_all_iff)

lemma json_in_JNum: "json_in A n h v = Some (JNum e) \<longleftrightarrow> v = VNum e"
  by (cases n; cases v) (auto split: heap_object.splits)

lemma map_of_zip_traverse:
  "traverse f (map snd props) = Some jl \<Longrightarrow>
     map_of (zip (map fst props) jl) k = (case map_of props k of None \<Rightarrow> None | Some v \<Rightarrow> f v)"
proof (induction props arbitrary: jl)
  case Nil
  then show ?case by simp
next
  case (Cons p props)
  then show ?case
    by (cases p) (auto split: option.splits)
qed

lemma record_expiresAt_json:
  assumes "json_in A n h v = Some j"
  shows "record_expiresAt h v = json_expiresAt j"
proof (cases v)
  case (VRef a)
  with assms obtain m where n: "n = Suc m"
    by (cases n) auto
  with assms VRef have a: "a < length h" "A a"
    by (auto split: if_splits)
  show ?thesis
  proof (cases "h ! a")
    case (HObject props)
    with assms VRef a n obtain jl where
      t: "traverse (json_in A m h) (map snd props) = Some jl" and
      j: "j = JObj (zip (map fst props) jl)"
      by auto
    note mz = map_of_zip_traverse [OF t, of "js ''expiresAt''"]
    show ?thesis
    proof (cases "map_of props (js ''expiresAt'')")
      case None
      with mz VRef a HObject j show ?thesis
        by (simp add: record_expiresAt_def json_expiresAt_def)
    next
      case (Some x)
      with mz have z: "map_of (zip (map fst props) jl) (js ''expiresAt'') = json_in A m h x"
        by simp
      show ?thesis
      proof (cases "\<exists>e. x = VNum e")
        case True
        then obtain e where "x = VNum e" by blast
        with z Some VRef a HObject j show ?thesis
          by (cases m) (simp_all add: record_expiresAt_def json_expiresAt_def)
      next
        case False
        then have "json_in A m h x \<noteq> Some (JNum e)" for e
          by (simp add: json_in_JNum)
        then have "(case json_in A m h x of Some (JNum e) \<Rightarrow> Some e | _ \<Rightarrow> None) = None"
          by (auto split: option.splits json.splits)
        moreover have "(case x of VNum e \<Rightarrow> Some e | _ \<Rightarrow> None) = None"
          using False by (cases x) auto
        ultimately show ?thesis
          using z Some VRef a HObject j
          by (simp add: record_expiresAt_def json_expiresAt_def)
      qed
    qed
  next
    case (HArrayObj vs)
    with assms VRef a n show ?thesis
      by (auto simp: record_expiresAt_def json_expiresAt_def)
  qed
next
  case VNull
  with assms show ?thesis
    by (cases n) (auto simp: record_expiresAt_def json_expiresAt_def)
next
  case (VBool b)
  with assms show ?thesis
    by (cases n) (auto simp: record_expiresAt_def json_expiresAt_def)
next
  case (VNum k)
  with assms show ?thesis
    by (cases n) (auto simp: record_expiresAt_def json_expiresAt_def)
next
  case (VStr s)
  with assms show ?thesis
    by (cases n) (auto simp: record_expiresAt_def json_expiresAt_def)
qed

lemma json_of_untouched:
  assumes j: "json_in (\<lambda>a. lo \<le> a) (length h) h v = Some j"
    and u: "untouched lo (length h) h h'"
  shows "json_of h' v = Some j"
proof -
  have "json_in (\<lambda>a. True) (length h) h' v = Some j"
    using j
  proof (rule json_in_frame)
    fix a assume "lo \<le> a" "a < length h"
    with u show "True \<and> a < length h' \<and> h' ! a = h ! a"
      using untouched_nth [OF u] by (simp add: untouched_def)
  qed
  moreover have "length h \<le> length h'"
    using u by (simp add: untouched_def)
  ultimately show ?thesis
    unfolding json_of_def by (rule json_in_fuel)
qed

lemma memory_get_expired:
  assumes "map_of m i = Some r'" and "record_expiresAt h r' = Some e" and "e \<le> t"
  shows "memory_get options t i (h, m) = Some (None, h, AList.delete i m)"
  using assms by (simp add: memory_get_def)

lemma memory_get_live:
  assumes dc: "deep_clone_strategy (clone_of options)"
    and m: "map_of m i = Some r'" and j: "json_of h r' = Some j"
    and e: "record_expiresAt h r' = Some e" and t: "t < e"
  shows "\<exists>r1 ext. memory_get options t i (h, m) = Some (Some r1, h @ ext, m) \<and>
           json_in (\<lambda>a. length h \<le> a) (length (h @ ext)) (h @ ext) r1 = Some j"
proof -
  from dc j obtain ext r1 where
    c: "clone_of options h r' = Some (h @ ext, r1)" and
    j1: "json_in (\<lambda>a. length h \<le> a) (length (h @ ext)) (h @ ext) r1 = Some j"
    unfolding deep_clone_strategy_def by blast
  have "memory_get options t i (h, m) = Some (Some r1, h @ ext, m)"
    using m e c t by (simp add: memory_get_def)
  with j1 show ?thesis by blast
qed

lemma memory_set_stores:
  assumes dc: "deep_clone_strategy (clone_of options)"
    and j0: "json_of h0 r = Some j"
  shows "\<exists>ext r'. memory_set options i r (h0, sessions)
             = Some (h0 @ ext, AList.update i r' sessions) \<and>
           (\<forall>h2. untouched (length h0) (length (h0 @ ext)) (h0 @ ext) h2 \<longrightarrow>
                 json_of h2 r' = Some j)"
proof -
  from dc j0 obtain ext r' where
    c1: "clone_of options h0 r = Some (h0 @ ext, r')" and
    j1: "json_in (\<lambda>a. length h0 \<le> a) (length (h0 @ ext)) (h0 @ ext) r' = Some j"
    unfolding deep_clone_strategy_def by blast
  have "memory_set options i r (h0, sessions) = Some (h0 @ ext, AList.update i r' sessions)"
    using c1 by (simp add: memory_set_def)
  moreover have "json_of h2 r' = Some j"
    if "untouched (length h0) (length (h0 @ ext)) (h0 @ ext) h2" for h2
    using j1 that by (rule json_of_untouched)
  ultimately show ?thesis by blast
qed

text \<open>
  Claim C9. Let the adapter clone by a deep clone strategy (the default is one, see
  \<open>defaultClone_deep\<close>), and let \<open>set(id, record)\<close> be called with a record that is a
  JSON value \<open>j\<close> with the expiry \<open>e\<close>. Then \<open>set\<close> returns, and from then on: in every
  heap \<open>h2\<close> in which the objects \<open>set\<close> allocated are untouched, whatever happened to all
  other objects (the caller's record among them), a \<open>get(id)\<close> at or after the expiry
  returns \<open>null\<close> and one before the expiry returns a record that unfolds to \<open>j\<close>; that
  record is made of objects allocated by this \<open>get\<close>, so none of the adapter's; and in
  every heap \<open>h4\<close> reached from there with the adapter's objects untouched, whatever
  happened to the returned record, a later \<open>get(id)\<close> before the expiry again returns a
  record that unfolds to \<open>j\<close>.
\<close>

theorem memory_adapter_isolates:
  assumes dc: "deep_clone_strategy (clone_of options)"
    and j0: "json_of h0 r = Some j"
    and e0: "record_expiresAt h0 r = Some e"
  shows "\<exists>h1 r'. memory_set options i r (h0, sessions) = Some (h1, AList.update i r' sessions) \<and>
           length h0 \<le> length h1 \<and>
           (\<forall>h2 t. untouched (length h0) (length h1) h1 h2 \<and> e \<le> t \<longrightarrow>
              memory_get options t i (h2, AList.update i r' sessions)
                = Some (None, h2, AList.delete i (AList.update i r' sessions))) \<and>
           (\<forall>h2 t. untouched (length h0) (length h1) h1 h2 \<and> t < e \<longrightarrow>
              (\<exists>r1 h3.
                 memory_get options t i (h2, AList.update i r' sessions)
                   = Some (Some r1, h3, AList.update i r' sessions) \<and>
                 json_of h3 r1 = Some j \<and>
                 json_in (\<lambda>a. length h2 \<le> a) (length h3) h3 r1 = Some j \<and>
                 (\<forall>h4 t'. untouched (length h0) (length h1) h3 h4 \<and> t' < e \<longrightarrow>
                    (\<exists>r2 h5.
                       memory_get options t' i (h4, AList.update i r' sessions)
                         = Some (Some r2, h5, AList.update i r' sessions) \<and>
                       json_of h5 r2 = Some j))))"
proof -
  from memory_set_stores [OF dc j0, of i sessions] obtain ext r' where
    s: "memory_set options i r (h0, sessions) = Some (h0 @ ext, AList.update i r' sessions)" and
    st: "\<And>h2. untouched (length h0) (length (h0 @ ext)) (h0 @ ext) h2 \<Longrightarrow> json_of h2 r' = Some j"
    by blast
  let ?h1 = "h0 @ ext"
  let ?m = "AList.update i r' sessions"
  have m: "map_of ?m i = Some r'"
    by (simp add: update_conv')
  have je: "json_expiresAt j = Some e"
    using record_expiresAt_json [OF j0 [unfolded json_of_def]] e0 by simp
  have ex: "record_expiresAt h2 r' = Some e"
    if "untouched (length h0) (length ?h1) ?h1 h2" for h2
    using record_expiresAt_json [OF st [OF that, unfolded json_of_def]] je by simp
  have live: "\<exists>r1 h3. memory_get options t i (h2, ?m) = Some (Some r1, h3, ?m) \<and>
              json_of h3 r1 = Some j \<and>
              json_in (\<lambda>a. length h2 \<le> a) (length h3) h3 r1 = Some j \<and>
              untouched (length h0) (length ?h1) ?h1 h3"
    if u: "untouched (length h0) (length ?h1) ?h1 h2" and t: "t < e" for h2 t
  proof -
    from memory_get_live [OF dc m st [OF u] ex [OF u] t] obtain r1 ext2 where
      g: "memory_get options t i (h2, ?m) = Some (Some r1, h2 @ ext2, ?m)" and
      f: "json_in (\<lambda>a. length h2 \<le> a) (length (h2 @ ext2)) (h2 @ ext2) r1 = Some j"
      by blast
    have "json_of (h2 @ ext2) r1 = Some j"
      unfolding json_of_def using f by (rule json_in_frame) simp
    moreover have "untouched (length h0) (length ?h1) ?h1 (h2 @ ext2)"
      using u by (auto simp: untouched_def list_all_iff nth_append)
    ultimately show ?thesis
      using g f by blast
  qed
  have expired: "memory_get options t i (h2, ?m) = Some (None, h2, AList.delete i ?m)"
    if u: "untouched (length h0) (length ?h1) ?h1 h2" and t: "e \<le> t" for h2 t
    using m ex [OF u] t by (rule memory_get_expired)
  have twice: "\<exists>r1 h3. memory_get options t i (h2, ?m) = Some (Some r1, h3, ?m) \<and>
              json_of h3 r1 = Some j \<and>
              json_in (\<lambda>a. length h2 \<le> a) (length h3) h3 r1 = Some j \<and>
              (\<forall>h4 t'. untouched (length h0) (length ?h1) h3 h4 \<and> t' < e \<longrightarrow>
                 (\<exists>r2 h5. memory_get options t' i (h4, ?m) = Some (Some r2, h5, ?m) \<and>
                    json_of h5 r2 = Some j))"
    if u: "untouched (length h0) (length ?h1) ?h1 h2" and t: "t < e" for h2 t
  proof -
    from live [OF u t] obtain r1 h3 where
      g1: "memory_get options t i (h2, ?m) = Some (Some r1, h3, ?m)" and
      j1: "json_of h3 r1 = Some j" and
      f1: "json_in (\<lambda>a. length h2 \<le> a) (length h3) h3 r1 = Some j" and
      u3: "untouched (length h0) (length ?h1) ?h1 h3"
      by blast
    have "\<exists>r2 h5. memory_get options t' i (h4, ?m) = Some (Some r2, h5, ?m) \<and>
            json_of h5 r2 = Some j"
      if u4: "untouched (length h0) (length ?h1) h3 h4" and t': "t' < e" for h4 t'
      using live [OF untouched_trans [OF u3 u4] t'] by blast
    with g1 j1 f1 show ?thesis by blast
  qed
  from s expired twice show ?thesis
    by (intro exI [of _ ?h1] exI [of _ r']) auto
qed

text \<open>
  Witness for C9: the record at address 1 is stored under \<open>a\<close>, then the caller sets
  \<open>visits\<close> to 99 in its own data object; \<open>get\<close> still returns \<open>visits: 1\<close>.
\<close>

theorem memory_adapter_isolates_witness:
  "deep_clone_strategy (clone_of \<lparr>opt_clone = None\<rparr>) \<and>
   json_of test_heap (VRef 1) = Some test_record \<and>
   record_expiresAt test_heap (VRef 1) = Some 100 \<and>
   memory_set \<lparr>opt_clone = None\<rparr> (js ''a'') (VRef 1) (test_heap, [])
     = Some (stored_heap, [(js ''a'', VRef 3)]) \<and>
   untouched (length test_heap) (length stored_heap) stored_heap mutated_heap \<and>
   json_of mutated_heap (VRef 1) \<noteq> Some test_record \<and>
   (\<exists>r1 h3.
      memory_get \<lparr>opt_clone = None\<rparr> 50 (js ''a'') (mutated_heap, [(js ''a'', VRef 3)])
        = Some (Some r1, h3, [(js ''a'', VRef 3)]) \<and>
      json_of h3 r1 = Some test_record)"
proof -
  have dc: "deep_clone_strategy (clone_of \<lparr>opt_clone = None\<rparr>)"
    by (simp add: clone_of_def defaultClone_deep)
  have j0: "json_of test_heap (VRef 1) = Some test_record"
    by code_simp
  have e0: "record_expiresAt test_heap (VRef 1) = Some 100"
    by code_simp
  have s: "memory_set \<lparr>opt_clone = None\<rparr> (js ''a'') (VRef 1) (test_heap, [])
             = Some (stored_heap, [(js ''a'', VRef 3)])"
    by code_simp
  have u: "untouched (length test_heap) (length stored_heap) stored_heap mutated_heap"
    by code_simp
  have m: "json_of mutated_heap (VRef 1) \<noteq> Some test_record"
    by code_simp
  have t: "(50::int) < 100"
    by simp
  from memory_adapter_isolates [OF dc j0 e0, of "js ''a''" "[]"] obtain h1 r' where
    s': "memory_set \<lparr>opt_clone = None\<rparr> (js ''a'') (VRef 1) (test_heap, [])
           = Some (h1, AList.update (js ''a'') r' [])" and
    g: "\<forall>h2 t. untouched (length test_heap) (length h1) h1 h2 \<and> t < 100 \<longrightarrow>
          (\<exists>r1 h3.
             memory_get \<lparr>opt_clone = None\<rparr> t (js ''a'') (h2, AList.update (js ''a'') r' [])
               = Some (Some r1, h3, AList.update (js ''a'') r' []) \<and>
             json_of h3 r1 = Some test_record \<and>
             json_in (\<lambda>a. length h2 \<le> a) (length h3) h3 r1 = Some test_record \<and>
             (\<forall>h4 t'. untouched (length test_heap) (length h1) h3 h4 \<and> t' < 100 \<longrightarrow>
                (\<exists>r2 h5.
                   memory_get \<lparr>opt_clone = None\<rparr> t' (js ''a'')
                       (h4, AList.update (js ''a'') r' [])
                     = Some (Some r2, h5, AList.update (js ''a'') r' []) \<and>
                   json_of h5 r2 = Some test_record)))"
    by blast
  from s s' have eq: "h1 = stored_heap" "AList.update (js ''a'') r' [] = [(js ''a'', VRef 3)]"
    by simp_all
  from g [rule_format, of mutated_heap 50] u t eq obtain r1 h3 where
    "memory_get \<lparr>opt_clone = None\<rparr> 50 (js ''a'') (mutated_heap, [(js ''a'', VRef 3)])
       = Some (Some r1, h3, [(js ''a'', VRef 3)])"
    "json_of h3 r1 = Some test_record"
    by auto
  with dc j0 e0 s u m show ?thesis by blast
qed


end
